theory Spec2Isabelle
  imports Main "HOL-Library.Sublist"
begin

section \<open>Exceptions, the clock and the log\<close>

text \<open>
  The exception classes the modelled code raises or catches, with the arguments an
  exception was built from (\<^verbatim>\<open>e[0]\<close> is the first one; \<^verbatim>\<open>str(e)\<close> of an exception
  with one argument is that argument). \<open>ConnectionError\<close> is the subclass of
  \<^verbatim>\<open>EnvironmentError\<close> of \<^verbatim>\<open>qalib/qabase/exceptions.py\<close>, \<open>PollingException\<close> the
  subclass of \<^verbatim>\<open>AssertionError\<close> declared there; \<open>UnicodeDecodeError\<close> is a
  \<^verbatim>\<open>ValueError\<close> in Python; \<open>BadAuthenticationType\<close> and
  \<open>AuthenticationException\<close> are paramiko's subclasses of \<open>SSHException\<close>.
\<close>

datatype exn_class =
    EnvironmentError | ConnectionError | ValueError | TypeError | ZeroDivisionError
  | IndexError | KeyError | IOError | AssertionError | PollingException | UnboundLocalError
  | OverflowError | UnicodeDecodeError
  | socket_error | SSHException | AuthenticationException | BadAuthenticationType
  | OtherException string

datatype exn = Exn (exn_cls: exn_class) (exn_args: "string list")

text \<open>\<^verbatim>\<open>isinstance(e, EnvironmentError)\<close> for the classes above (Python 2).\<close>

fun is_EnvironmentError :: "exn \<Rightarrow> bool" where
  "is_EnvironmentError (Exn c _) = (c = EnvironmentError \<or> c = ConnectionError
                                    \<or> c = IOError \<or> c = socket_error)"

datatype log_level = WARNING | ERROR

text \<open>
  The state the modelled code reads and writes: the clock behind \<^verbatim>\<open>time()\<close> and
  \<^verbatim>\<open>sleep\<close> (in ticks of any fixed length), the commands run so far on the remote
  system, the warnings and errors logged (debug messages are not recorded), and the two
  module-level dictionaries of \<^verbatim>\<open>qalib/corelibs/system/__init__.py\<close>, keyed by the
  system's name.
\<close>

record IscsiTarget =
  t_ip :: "string option"
  t_port :: int
  t_iqn :: string
  t_iface :: "string option"

record world =
  now :: int
  issued :: "string list"
  logged :: "(log_level \<times> string) list"
  slept :: "int list"
  DISCOVERED_TARGETS :: "string \<rightharpoonup> IscsiTarget list"
  ISCSI_LOGGEDIN_TARGETS :: "string \<rightharpoonup> IscsiTarget list"

definition log_msg :: "log_level \<Rightarrow> string \<Rightarrow> world \<Rightarrow> world" where
  "log_msg lvl msg w = w\<lparr>logged := logged w @ [(lvl, msg)]\<rparr>"

text \<open>\<^verbatim>\<open>time.sleep(d)\<close>: Python 2 raises \<^verbatim>\<open>IOError\<close> on a negative argument.\<close>

definition sleep :: "int \<Rightarrow> world \<Rightarrow> exn + world" where
  "sleep d w = (if d < 0 then Inl (Exn IOError [''[Errno 22] Invalid argument''])
                else Inr (w\<lparr>now := now w + d, slept := slept w @ [d]\<rparr>))"

text \<open>\<^verbatim>\<open>s in t\<close> on strings.\<close>

fun is_substring :: "string \<Rightarrow> string \<Rightarrow> bool" where
  "is_substring s [] = (s = [])"
| "is_substring s (c # cs) = (prefix s (c # cs) \<or> is_substring s cs)"

section \<open>The bounded retry poller\<close>

text \<open>
  \<^verbatim>\<open>qalib/qabase/polling.py\<close>, \<^verbatim>\<open>poll\<close>. The polled function takes its positional
  and keyword arguments and the world, and returns a value or raises. The argument
  \<^verbatim>\<open>args\<close> is \<^verbatim>\<open>None\<close>, a list or (the user error the code flags) a string; the
  argument \<^verbatim>\<open>exception\<close>, a class or a tuple or list of classes, is the test
  \<^verbatim>\<open>isinstance(e, exception)\<close> it stands for, \<open>None\<close> when it is false in a
  condition (\<^verbatim>\<open>None\<close>, an empty tuple).
\<close>

datatype 'a py_args = ArgsNone | ArgsList "'a list" | ArgsStr string

type_synonym ('a, 'r) polled =
  "'a list \<Rightarrow> (string \<times> 'a) list \<Rightarrow> world \<Rightarrow> (exn + 'r) \<times> world"

text \<open>
  \<^verbatim>\<open>int(timeout / interval)\<close> under \<^verbatim>\<open>from __future__ import division\<close>, for
  the integers that every call of \<^verbatim>\<open>poll\<close> in the repository passes (an argument that
  is a \<^verbatim>\<open>float\<close> is outside this model). Python 2 gives the quotient of two integers
  as the double nearest to the exact quotient, ties going to the even significand, raises
  \<^verbatim>\<open>ZeroDivisionError\<close> on a zero divisor and \<^verbatim>\<open>OverflowError\<close> when the nearest
  double would be \<open>2 ^ 1024\<close> or more; \<^verbatim>\<open>int\<close> then cuts the fraction of the double
  off. For numerator and denominator below \<open>2 ^ 53\<close> this is the integer quotient
  truncated towards zero; beyond, the rounding of the double can reach the next integer.

  \<open>bit_length n\<close> is \<^verbatim>\<open>n.bit_length()\<close>. \<open>round_half_even n d\<close> is the integer
  nearest to \<open>n / d\<close>. In \<open>double_quotient n d\<close>, for positive \<open>n\<close> and \<open>d\<close>,
  \<open>l\<close> is the exponent of the quotient (\<open>2 ^ l \<le> n / d < 2 ^ (l + 1)\<close>), \<open>e\<close> the
  exponent of the last of the 53 bits of its significand (not below that of the smallest
  subnormal, \<open>- 1074\<close>) and \<open>m\<close> the significand; the result is \<open>(m, e)\<close>, standing
  for the double \<open>m * 2 ^ e\<close>.
\<close>

function bit_length :: "nat \<Rightarrow> nat" where
  "bit_length n = (if n = 0 then 0 else Suc (bit_length (n div 2)))"
  by pat_completeness auto
termination
  by (relation "measure id") auto

definition round_half_even :: "nat \<Rightarrow> nat \<Rightarrow> nat" where
  "round_half_even n d =
     (if 2 * (n mod d) < d \<or> (2 * (n mod d) = d \<and> even (n div d)) then n div d
      else n div d + 1)"

definition double_quotient :: "nat \<Rightarrow> nat \<Rightarrow> nat \<times> int" where
  "double_quotient n d =
     (let k = int (bit_length n) - int (bit_length d);
          l = (if (if 0 \<le> k then d * 2 ^ nat k \<le> n else d \<le> n * 2 ^ nat (- k)) then k
               else k - 1);
          e = max (l - 52) (- 1074);
          m = (if 0 \<le> e then round_half_even n (d * 2 ^ nat e)
               else round_half_even (n * 2 ^ nat (- e)) d)
      in (m, e))"

definition int_truediv :: "int \<Rightarrow> int \<Rightarrow> exn + int" where
  "int_truediv a b =
     (if b = 0 then Inl (Exn ZeroDivisionError [''division by zero''])
      else if a = 0 then Inr 0
      else (case double_quotient (nat \<bar>a\<bar>) (nat \<bar>b\<bar>) of
              (m, e) \<Rightarrow>
                if 0 \<le> e then
                  (if 2 ^ 1024 \<le> m * 2 ^ nat e then
                     Inl (Exn OverflowError [''integer division result too large for a float''])
                   else Inr (sgn a * sgn b * int (m * 2 ^ nat e)))
                else Inr (sgn a * sgn b * int (m div 2 ^ nat (- e)))))"

text \<open>\<^verbatim>\<open>current < retries\<close> in Python 2, where \<^verbatim>\<open>None\<close> is below every number.\<close>

fun py2_less :: "int \<Rightarrow> int option \<Rightarrow> bool" where
  "py2_less c None = False"
| "py2_less c (Some r) = (c < r)"

text \<open>The local variables of a running \<^verbatim>\<open>poll\<close>.\<close>

record ('a, 'r) poll_frame =
  pf_function :: "('a, 'r) polled"
  pf_args :: "'a list"
  pf_kwargs :: "(string \<times> 'a) list"
  pf_exception :: "(exn \<Rightarrow> bool) option"
  pf_inspection :: "string option"
  pf_interval :: int
  pf_retries :: "int option"
  pf_timeout :: int
  current :: int
  start_time :: int

text \<open>
  The generator object: created and not yet started (none of the body has run), suspended
  at one of the two \<^verbatim>\<open>yield\<close>s (both resume at \<^verbatim>\<open>current += 1\<close>), or finished.
\<close>

datatype ('a, 'r) generator =
    Created "('a, 'r) polled" "'a py_args" "(string \<times> 'a) list option" "int option"
            "int option" "int option" "(exn \<Rightarrow> bool) option" "string option"
  | Suspended "('a, 'r) poll_frame"
  | Finished

text \<open>What \<^verbatim>\<open>next()\<close> gives: a value and the generator to resume, the end, or an exception.\<close>

datatype ('a, 'r) step =
    Yield "'r option" "('a, 'r) generator"
  | StopIteration
  | Raise exn

definition poll :: "('a, 'r) polled \<Rightarrow> 'a py_args \<Rightarrow> (string \<times> 'a) list option \<Rightarrow>
    int option \<Rightarrow> int option \<Rightarrow> int option \<Rightarrow> (exn \<Rightarrow> bool) option \<Rightarrow> string option \<Rightarrow>
    ('a, 'r) generator" where
  "poll f args kwargs retries interval timeout exception inspection =
     Created f args kwargs retries interval timeout exception inspection"

text \<open>
  The statements of \<^verbatim>\<open>poll\<close> before its loop, one definition each:
  \<^verbatim>\<open>if not args: args = []\<close> followed by the test for a string;
  \<^verbatim>\<open>if interval is None\<close>; \<^verbatim>\<open>if timeout is None and retries is None\<close>;
  and \<^verbatim>\<open>if timeout: retries = int(timeout / interval) else: timeout = 1000000\<close>.
\<close>

fun poll_args :: "'a py_args \<Rightarrow> exn + 'a list" where
  "poll_args ArgsNone = Inr []"
| "poll_args (ArgsList as) = Inr as"
| "poll_args (ArgsStr []) = Inr []"
| "poll_args (ArgsStr (c # cs)) =
     Inl (Exn ValueError [''Error: args must be an array, not a string''])"

fun poll_interval :: "int option \<Rightarrow> world \<Rightarrow> int \<times> world" where
  "poll_interval None w = (1, log_msg WARNING ''poll interval param ought to be specified'' w)"
| "poll_interval (Some i) w = (i, w)"

fun poll_default_retries :: "int option \<Rightarrow> int option \<Rightarrow> world \<Rightarrow> int option \<times> world" where
  "poll_default_retries None None w =
     (Some 20, log_msg WARNING ''poll timeout or retries param ought to be specified'' w)"
| "poll_default_retries timeout retries w = (retries, w)"

text \<open>The retry count and the timeout the loop runs with, or the exception of the division.\<close>

fun poll_budget :: "int option \<Rightarrow> int option \<Rightarrow> int \<Rightarrow> exn + (int option \<times> int)" where
  "poll_budget None retries interval = Inr (retries, 1000000)"
| "poll_budget (Some t) retries interval =
     (if t = 0 then Inr (retries, 1000000)
      else (case int_truediv t interval of
              Inl e \<Rightarrow> Inl e
            | Inr r \<Rightarrow> Inr (Some r, t)))"

text \<open>The body of \<^verbatim>\<open>poll\<close> before its loop: the frame at \<^verbatim>\<open>start_time = time()\<close>.\<close>

definition poll_start :: "('a, 'r) polled \<Rightarrow> 'a py_args \<Rightarrow> (string \<times> 'a) list option \<Rightarrow>
    int option \<Rightarrow> int option \<Rightarrow> int option \<Rightarrow> (exn \<Rightarrow> bool) option \<Rightarrow> string option \<Rightarrow>
    world \<Rightarrow> (exn + ('a, 'r) poll_frame) \<times> world" where
  "poll_start f args kwargs retries interval timeout exception inspection w =
     (case poll_args args of
        Inl e \<Rightarrow> (Inl e, w)
      | Inr args1 \<Rightarrow>
         (let kwargs1 = (case kwargs of None \<Rightarrow> [] | Some k \<Rightarrow> k);
              w1 = snd (poll_interval interval w);
              interval1 = fst (poll_interval interval w);
              w2 = snd (poll_default_retries timeout retries w1);
              retries1 = fst (poll_default_retries timeout retries w1)
          in case poll_budget timeout retries1 interval1 of
               Inl e \<Rightarrow> (Inl e, w2)
             | Inr (retries2, timeout2) \<Rightarrow>
                 (Inr \<lparr>pf_function = f, pf_args = args1, pf_kwargs = kwargs1,
                        pf_exception = exception, pf_inspection = inspection,
                        pf_interval = interval1, pf_retries = retries2,
                        pf_timeout = timeout2, current = 0, start_time = now w2\<rparr>,
                  w2)))"

text \<open>
  From the loop test to the next \<^verbatim>\<open>yield\<close>, the end of the loop or an exception that
  leaves the generator.
\<close>

definition poll_iter :: "('a, 'r) poll_frame \<Rightarrow> world \<Rightarrow> ('a, 'r) step \<times> world" where
  "poll_iter fr w =
     (if py2_less (current fr) (pf_retries fr) \<and> now w - start_time fr < pf_timeout fr then
        (case pf_function fr (pf_args fr) (pf_kwargs fr) w of
           (Inr r, w') \<Rightarrow> (Yield (Some r) (Suspended fr), w')
         | (Inl e, w') \<Rightarrow>
             (case pf_exception fr of
                None \<Rightarrow> (Raise e, w')
              | Some catches \<Rightarrow>
                  if catches e then
                    (case pf_inspection fr of
                       Some (c # cs) \<Rightarrow>
                         (case exn_args e of
                            [] \<Rightarrow> (Raise (Exn IndexError [''tuple index out of range'']), w')
                          | a0 # _ \<Rightarrow>
                              if \<not> is_substring (c # cs) a0 then (Raise e, w')
                              else (Yield None (Suspended fr), w'))
                     | _ \<Rightarrow> (Yield None (Suspended fr), w'))
                  else (Raise e, w')))
      else (StopIteration, w))"

text \<open>\<^verbatim>\<open>next()\<close> on the generator.\<close>

fun gen_next :: "('a, 'r) generator \<Rightarrow> world \<Rightarrow> ('a, 'r) step \<times> world" where
  "gen_next (Created f args kwargs retries interval timeout exception inspection) w =
     (case poll_start f args kwargs retries interval timeout exception inspection w of
        (Inl e, w') \<Rightarrow> (Raise e, w')
      | (Inr fr, w') \<Rightarrow> poll_iter fr w')"
| "gen_next (Suspended fr) w =
     (case sleep (pf_interval fr) w of
        Inl e \<Rightarrow> (Raise e, w)
      | Inr w' \<Rightarrow> poll_iter (fr\<lparr>current := current fr + 1\<rparr>) w')"
| "gen_next Finished w = (StopIteration, w)"


section \<open>\<^verbatim>\<open>for\<close> loops over the poller\<close>

text \<open>
  A loop \<^verbatim>\<open>for v in gen: body\<close> with an \<^verbatim>\<open>else\<close> clause. The body works on the
  local variables of the caller and on the world, and ends an iteration by falling
  through or \<^verbatim>\<open>continue\<close> (\<open>Next\<close>), by \<^verbatim>\<open>break\<close>, by \<^verbatim>\<open>return\<close> or by
  raising. The loop ends \<open>Exhausted\<close> when the generator stops (the \<^verbatim>\<open>else\<close>
  clause then runs), \<open>Broke\<close>, \<open>Returned\<close>, or \<open>Threw\<close>, also when the
  generator itself raises.
\<close>

datatype 's flow = Next 's | Break 's | Return 's | Throw exn 's

datatype 's for_exit = Exhausted 's | Broke 's | Returned 's | Threw exn 's

text \<open>The attempts a generator can still make; the loop below terminates on it.\<close>

fun gen_fuel :: "('a, 'r) generator \<Rightarrow> nat" where
  "gen_fuel (Created f args kwargs retries interval timeout exception inspection) =
     Suc (case poll_budget timeout (case (timeout, retries) of (None, None) \<Rightarrow> Some 20 | _ \<Rightarrow> retries)
                 (case interval of None \<Rightarrow> 1 | Some i \<Rightarrow> i) of
            Inr (Some r, _) \<Rightarrow> nat r
          | _ \<Rightarrow> 0)"
| "gen_fuel (Suspended fr) =
     (case pf_retries fr of None \<Rightarrow> 0 | Some r \<Rightarrow> nat (r - current fr))"
| "gen_fuel Finished = 0"

function for_in :: "('a, 'r) generator \<Rightarrow> ('r option \<Rightarrow> 's \<Rightarrow> world \<Rightarrow> 's flow \<times> world) \<Rightarrow>
    's \<Rightarrow> world \<Rightarrow> 's for_exit \<times> world" where
  "for_in g body s w =
     (case gen_next g w of
        (StopIteration, w') \<Rightarrow> (Exhausted s, w')
      | (Raise e, w') \<Rightarrow> (Threw e s, w')
      | (Yield v g', w') \<Rightarrow>
          (case body v s w' of
             (Next s', w'') \<Rightarrow> for_in g' body s' w''
           | (Break s', w'') \<Rightarrow> (Broke s', w'')
           | (Return s', w'') \<Rightarrow> (Returned s', w'')
           | (Throw e s', w'') \<Rightarrow> (Threw e s', w'')))"
  by pat_completeness auto


section \<open>Strings\<close>

text \<open>\<^verbatim>\<open>sep.join(xs)\<close>, and \<^verbatim>\<open>unicode(n)\<close> and \<^verbatim>\<open>'%s' % n\<close> of an integer.\<close>

fun join :: "string \<Rightarrow> string list \<Rightarrow> string" where
  "join sep [] = []"
| "join sep [x] = x"
| "join sep (x # y # ys) = x @ sep @ join sep (y # ys)"

definition digit_char :: "nat \<Rightarrow> char" where
  "digit_char n = ''0123456789'' ! (n mod 10)"

function str_nat :: "nat \<Rightarrow> string" where
  "str_nat n = (if n < 10 then [digit_char n] else str_nat (n div 10) @ [digit_char (n mod 10)])"
  by pat_completeness auto
termination
  by (relation "measure id") auto

definition str_int :: "int \<Rightarrow> string" where
  "str_int i = (if i < 0 then CHR ''-'' # str_nat (nat (- i)) else str_nat (nat i))"

text \<open>\<^verbatim>\<open>'%s'\<close> of a value that may still be \<^verbatim>\<open>None\<close>.\<close>

fun fmt_int_opt :: "int option \<Rightarrow> string" where
  "fmt_int_opt None = ''None''"
| "fmt_int_opt (Some i) = str_int i"

fun fmt_str_opt :: "string option \<Rightarrow> string" where
  "fmt_str_opt None = ''None''"
| "fmt_str_opt (Some s) = s"

text \<open>The truth value of an optional string in a condition: \<^verbatim>\<open>None\<close> and \<^verbatim>\<open>''\<close> are false.\<close>

fun truthy :: "string option \<Rightarrow> bool" where
  "truthy None = False"
| "truthy (Some s) = (s \<noteq> [])"

section \<open>Asynchronous command handle: the output cache and its read cursor\<close>

text \<open>
  \<^verbatim>\<open>qalib/corelibs/ssh/__init__.py\<close>, class \<^verbatim>\<open>Async\<close>. The handle keeps
  \<^verbatim>\<open>_output_cache\<close>, a list of blocks (each block is the one-element list
  \<^verbatim>\<open>[data]\<close> appended by \<^verbatim>\<open>_recv_thread\<close>; the data are the byte strings
  \<^verbatim>\<open>recv\<close> returns), and \<^verbatim>\<open>_last_read_pointer\<close>, an index into that list. The
  background thread is modelled by its loop body, one \<^verbatim>\<open>recv\<close> at a time;
  \<open>recv_eof\<close> records that the loop has left through \<^verbatim>\<open>break\<close>.
\<close>

record Async =
  output_cache :: "string list list"
  last_read_pointer :: nat
  recv_eof :: bool

definition Async_init :: Async where
  "Async_init = \<lparr>output_cache = [], last_read_pointer = 0, recv_eof = False\<rparr>"

text \<open>One iteration of the loop of \<^verbatim>\<open>_recv_thread\<close> on the data \<^verbatim>\<open>recv\<close> returned.\<close>

definition recv_thread_step :: "string \<Rightarrow> Async \<Rightarrow> Async" where
  "recv_thread_step data a =
     (if recv_eof a then a
      else if data = [] then a\<lparr>recv_eof := True\<rparr>
      else a\<lparr>output_cache := output_cache a @ [[data]]\<rparr>)"

text \<open>
  \<^verbatim>\<open>''.join(out)\<close> on a list of byte strings. The module imports
  \<^verbatim>\<open>unicode_literals\<close>, so the separator is a \<^verbatim>\<open>unicode\<close> and Python 2 decodes
  every item with the \<^verbatim>\<open>ascii\<close> codec, from the left: the first byte above 127 raises
  \<^verbatim>\<open>UnicodeDecodeError('ascii', item, i, i + 1, 'ordinal not in range(128)')\<close>.
\<close>

fun first_non_ascii :: "string \<Rightarrow> nat option" where
  "first_non_ascii [] = None"
| "first_non_ascii (c # cs) =
     (if (128 :: nat) \<le> of_char c then Some 0 else map_option Suc (first_non_ascii cs))"

fun unicode_join :: "string list \<Rightarrow> exn + string" where
  "unicode_join [] = Inr []"
| "unicode_join (x # xs) =
     (case first_non_ascii x of
        Some i \<Rightarrow>
          Inl (Exn UnicodeDecodeError
                 [''ascii'', x, str_nat i, str_nat (i + 1), ''ordinal not in range(128)''])
      | None \<Rightarrow>
          (case unicode_join xs of
             Inl e \<Rightarrow> Inl e
           | Inr s \<Rightarrow> Inr (x @ s)))"

text \<open>
  The property \<^verbatim>\<open>output\<close> (\<open>output\<close> is reserved here): every block of the cache,
  joined. Its loop runs over the list itself, so it takes in what the background thread
  appends until the loop ends; \<open>output_prop a\<close> is its value when the loop ends at the
  handle \<open>a\<close>.
\<close>

definition output_prop :: "Async \<Rightarrow> exn + string" where
  "output_prop a = unicode_join (concat (output_cache a))"

text \<open>
  The method \<^verbatim>\<open>read\<close>, statement by statement, since the background thread can append
  between any two of them. \<^verbatim>\<open>local_cache = self._output_cache\<close> binds a second name to
  the list the thread appends to and copies nothing. A call is at one of four points:
  before \<^verbatim>\<open>if self._output_cache:\<close>; before
  \<^verbatim>\<open>if self._last_read_pointer < len(local_cache):\<close>; before the slice
  \<^verbatim>\<open>local_cache[self._last_read_pointer::]\<close> (the slice is a new list, and the loop
  over it and the join read nothing else of the handle); and, holding the joined
  \<^verbatim>\<open>output\<close>, before \<^verbatim>\<open>self._last_read_pointer = len(local_cache)\<close>, which is
  followed by \<^verbatim>\<open>return output\<close>. A step goes to the next point, returns or raises.
\<close>

datatype read_pc = AtCacheTest | AtPointerTest | AtSlice | AtPointerStore string

datatype read_next = At read_pc | Returns string | Raises exn

fun read_step :: "read_pc \<Rightarrow> Async \<Rightarrow> read_next \<times> Async" where
  "read_step AtCacheTest a =
     (if output_cache a \<noteq> [] then (At AtPointerTest, a) else (Returns [], a))"
| "read_step AtPointerTest a =
     (if last_read_pointer a < length (output_cache a) then (At AtSlice, a)
      else (Returns [], a))"
| "read_step AtSlice a =
     (case unicode_join (concat (drop (last_read_pointer a) (output_cache a))) of
        Inl e \<Rightarrow> (Raises e, a)
      | Inr out \<Rightarrow> (At (AtPointerStore out), a))"
| "read_step (AtPointerStore out) a =
     (Returns out, a\<lparr>last_read_pointer := length (output_cache a)\<rparr>)"

text \<open>
  A run of the handle with two threads, the background thread and one caller that calls
  \<^verbatim>\<open>read()\<close> again and again: \<open>Recv d\<close> is one iteration of the loop of
  \<^verbatim>\<open>_recv_thread\<close> in which \<^verbatim>\<open>recv\<close> returns \<open>d\<close>, \<open>Step\<close> is the next
  statement of the caller. The run starts with the caller at the point \<open>pc\<close> and gives
  what the \<^verbatim>\<open>read()\<close> calls returned or raised, in order, the point the caller is at
  and the handle at the end.
\<close>

datatype async_event = Recv string | Step

fun run_events :: "async_event list \<Rightarrow> read_pc \<Rightarrow> Async \<Rightarrow>
    (exn + string) list \<times> read_pc \<times> Async" where
  "run_events [] pc a = ([], pc, a)"
| "run_events (Recv d # es) pc a = run_events es pc (recv_thread_step d a)"
| "run_events (Step # es) pc a =
     (case read_step pc a of
        (At pc', a') \<Rightarrow> run_events es pc' a'
      | (Returns s, a') \<Rightarrow>
          (case run_events es AtCacheTest a' of (rs, st) \<Rightarrow> (Inr s # rs, st))
      | (Raises e, a') \<Rightarrow>
          (case run_events es AtCacheTest a' of (rs, st) \<Rightarrow> (Inl e # rs, st)))"

section \<open>The remote system\<close>

text \<open>
  \<^verbatim>\<open>qalib/corelibs/system/__init__.py\<close>. A system has a name, is hardware or virtual,
  and answers a command line with an exit status and its output, taking some ticks; the
  answer may depend on everything run before. The semaphores of \<^verbatim>\<open>_ISCSIADM_SEMIS\<close>
  and \<^verbatim>\<open>_UDEV_SEMIS\<close> order concurrent callers and are not part of this sequential
  model.
\<close>

record system =
  name :: string
  on_hardware :: bool
  respond :: "string list \<Rightarrow> string \<Rightarrow> int \<times> string \<times> nat"

definition run_cmd :: "system \<Rightarrow> string \<Rightarrow> world \<Rightarrow> (int \<times> string) \<times> world" where
  "run_cmd sys cmd w =
     (case respond sys (issued w) cmd of
        (exitstatus, out, d) \<Rightarrow>
          ((exitstatus, out), w\<lparr>now := now w + int d, issued := issued w @ [cmd]\<rparr>))"

definition run_cmd_check :: "system \<Rightarrow> string \<Rightarrow> world \<Rightarrow> (exn + string) \<times> world" where
  "run_cmd_check sys cmd w =
     (case run_cmd sys cmd w of
        ((exitstatus, out), w') \<Rightarrow>
          if exitstatus \<noteq> 0 then
            (Inl (Exn EnvironmentError
               [''Command failed ($?='' @ str_int exitstatus @ '') on '' @ name sys @ '':''
                 @ [CHR 0x0A] @ cmd @ [CHR 0x0A] @ out]), w')
          else (Inr out, w'))"

text \<open>\<^verbatim>\<open>self.system.run_cmd\<close> as \<^verbatim>\<open>poll\<close> calls it: \<^verbatim>\<open>function(*args, **kwargs)\<close>.\<close>

definition polled_run_cmd :: "system \<Rightarrow> (string, int \<times> string) polled" where
  "polled_run_cmd sys args kwargs w =
     (case (args, kwargs) of
        ([cmd], []) \<Rightarrow> (case run_cmd sys cmd w of (r, w') \<Rightarrow> (Inr r, w'))
      | _ \<Rightarrow> (Inl (Exn TypeError [''run_cmd() takes exactly 2 arguments'']), w))"

section \<open>The iSCSI lifecycle controller\<close>

text \<open>\<^verbatim>\<open>qalib/client/iscsi.py\<close>, class \<^verbatim>\<open>ISCSIInitiator\<close>.\<close>

definition DELETE_RETRY_COUNT :: int where "DELETE_RETRY_COUNT = 12"
definition DISCOVERY_RETRY_COUNT :: int where "DISCOVERY_RETRY_COUNT = 5"
definition DISCOVERY_TIMEOUT :: int where "DISCOVERY_TIMEOUT = 100"
definition ISCSIADM_RETRY_INTERVAL :: int where "ISCSIADM_RETRY_INTERVAL = 5"
definition LOGOUT_RETRY_COUNT :: int where "LOGOUT_RETRY_COUNT = 12"
definition MAX_ISCSI_WORKER :: nat where "MAX_ISCSI_WORKER = 10"

definition max_iscsi_worker :: "system \<Rightarrow> nat" where
  "max_iscsi_worker sys = (if on_hardware sys then MAX_ISCSI_WORKER else 1)"

subsection \<open>\<^verbatim>\<open>remove_iscsi_loggedin_target_using_iqn\<close>\<close>

text \<open>
  The loop over the copy \<^verbatim>\<open>ISCSI_LOGGEDIN_TARGETS[name][:]\<close>, removing from the list
  itself; \<^verbatim>\<open>list.remove\<close> takes out the first equal element.
\<close>

fun remove_using_iqn_loop :: "IscsiTarget list \<Rightarrow> string option \<Rightarrow> string \<Rightarrow>
    IscsiTarget list \<Rightarrow> IscsiTarget list" where
  "remove_using_iqn_loop [] ip iqn live = live"
| "remove_using_iqn_loop (target # rest) ip iqn live =
     (if t_iqn target = iqn then
        (if truthy ip then
           (if t_ip target = ip then remove1 target live
            else remove_using_iqn_loop rest ip iqn live)
         else remove_using_iqn_loop rest ip iqn (remove1 target live))
      else remove_using_iqn_loop rest ip iqn live)"

definition remove_iscsi_loggedin_target_using_iqn ::
    "system \<Rightarrow> string option \<Rightarrow> string \<Rightarrow> world \<Rightarrow> world" where
  "remove_iscsi_loggedin_target_using_iqn sys ip iqn w =
     (case ISCSI_LOGGEDIN_TARGETS w (name sys) of
        None \<Rightarrow> w
      | Some targets \<Rightarrow>
          if \<not> (targets \<noteq> []) then
            w\<lparr>ISCSI_LOGGEDIN_TARGETS :=
                (ISCSI_LOGGEDIN_TARGETS w)(name sys \<mapsto> remove_using_iqn_loop targets ip iqn targets)\<rparr>
          else w)"

subsection \<open>\<^verbatim>\<open>logout\<close>\<close>

definition logout_cmd_str :: "string \<Rightarrow> string option \<Rightarrow> int \<Rightarrow> string option \<Rightarrow> string" where
  "logout_cmd_str iqn ip port iface_name =
     join '' ''
       ([''iscsiadm'', ''-m'', ''node'', ''-T'', iqn]
        @ (if truthy ip then [''-p'', fmt_str_opt ip @ '':'' @ str_int port] else [])
        @ (case iface_name of None \<Rightarrow> [] | Some i \<Rightarrow> [''-I'', i])
        @ [''--logout''])"

definition logout_error_response :: "string list" where
  "logout_error_response = [''No matching sessions found'', ''Could not read iface info for'']"

definition logout_error_code :: "int list" where
  "logout_error_code = [3, 7, 21]"

text \<open>
  The body of the loop of \<^verbatim>\<open>logout\<close>; the local variables are \<^verbatim>\<open>ret\<close> and
  \<^verbatim>\<open>output\<close>. \<^verbatim>\<open>output in error_response\<close> is membership in the list.
\<close>

definition logout_body :: "system \<Rightarrow> string option \<Rightarrow> string \<Rightarrow> (int \<times> string) option \<Rightarrow>
    int option \<times> string option \<Rightarrow> world \<Rightarrow> (int option \<times> string option) flow \<times> world" where
  "logout_body sys ip iqn v locals w =
     (case v of
        None \<Rightarrow> (Throw (Exn TypeError [''NoneType object is not iterable'']) locals, w)
      | Some (ret, out) \<Rightarrow>
          if ret = 0 then
            (Break (Some ret, Some out), remove_iscsi_loggedin_target_using_iqn sys ip iqn w)
          else if ret \<in> set logout_error_code \<or> out \<in> set logout_error_response then
            (Break (Some ret, Some out), w)
          else if ret = 6 then
            (Next (Some ret, Some out),
             log_msg WARNING (''System '' @ name sys @ '' temporary iSCSI DB logout error'') w)
          else (Next (Some ret, Some out), w))"

definition cmd_failed_msg :: "system \<Rightarrow> string \<Rightarrow> int option \<Rightarrow> string option \<Rightarrow> string" where
  "cmd_failed_msg sys cmd_str ret out =
     name sys @ '': cmd:'' @ cmd_str @ '' failed with exit status:'' @ fmt_int_opt ret
       @ '',output:'' @ fmt_str_opt out"

definition logout :: "system \<Rightarrow> string \<Rightarrow> string option \<Rightarrow> int \<Rightarrow> string option \<Rightarrow>
    world \<Rightarrow> (exn + unit) \<times> world" where
  "logout sys iqn ip port iface_name w =
     (let cmd_str = logout_cmd_str iqn ip port iface_name in
      case for_in (poll (polled_run_cmd sys) (ArgsList [cmd_str]) None
                      (Some LOGOUT_RETRY_COUNT) (Some ISCSIADM_RETRY_INTERVAL) None None None)
                  (logout_body sys ip iqn) (None, None) w of
        (Exhausted (ret, out), w') \<Rightarrow>
          (Inl (Exn EnvironmentError [cmd_failed_msg sys cmd_str ret out]), w')
      | (Threw e _, w') \<Rightarrow> (Inl e, w')
      | (_, w') \<Rightarrow> (Inr (), w'))"

subsection \<open>\<^verbatim>\<open>delete\<close>\<close>

definition delete_cmd_str :: "string \<Rightarrow> string option \<Rightarrow> string" where
  "delete_cmd_str iqn ip =
     join '' ''
       ([''iscsiadm'', ''-m'', ''node'', ''-T'', iqn]
        @ (if truthy ip then [''-p'', fmt_str_opt ip] else [])
        @ [''--op'', ''delete''])"

definition delete_body :: "system \<Rightarrow> (int \<times> string) option \<Rightarrow>
    int option \<times> string option \<Rightarrow> world \<Rightarrow> (int option \<times> string option) flow \<times> world" where
  "delete_body sys v locals w =
     (case v of
        None \<Rightarrow> (Throw (Exn TypeError [''NoneType object is not iterable'']) locals, w)
      | Some (ret, out) \<Rightarrow>
          if ret = 0 then (Break (Some ret, Some out), w)
          else if ret = 21 \<or> is_substring ''No records found'' out then
            (Break (Some ret, Some out), w)
          else if ret = 6 then
            (Next (Some ret, Some out),
             log_msg WARNING (''System '' @ name sys @ '' temporary iSCSI DB delete error'') w)
          else (Next (Some ret, Some out), w))"

text \<open>
  The book-keeping loops of \<^verbatim>\<open>delete\<close>, \<^verbatim>\<open>destroy_iface\<close> and
  \<^verbatim>\<open>remove_target_from_iscsi_loggedin_targets\<close>: over a copy of the list, every
  element that meets the test is removed from the list itself.
\<close>

fun remove_matching_loop :: "IscsiTarget list \<Rightarrow> (IscsiTarget \<Rightarrow> bool) \<Rightarrow>
    IscsiTarget list \<Rightarrow> IscsiTarget list" where
  "remove_matching_loop [] test live = live"
| "remove_matching_loop (target # rest) test live =
     (if test target then remove_matching_loop rest test (remove1 target live)
      else remove_matching_loop rest test live)"

definition remove_discovered :: "system \<Rightarrow> (IscsiTarget \<Rightarrow> bool) \<Rightarrow> world \<Rightarrow> world" where
  "remove_discovered sys test w =
     (case DISCOVERED_TARGETS w (name sys) of
        None \<Rightarrow> w
      | Some targets \<Rightarrow>
          if targets \<noteq> [] then
            w\<lparr>DISCOVERED_TARGETS :=
                (DISCOVERED_TARGETS w)(name sys \<mapsto> remove_matching_loop targets test targets)\<rparr>
          else w)"

definition delete :: "system \<Rightarrow> string \<Rightarrow> string option \<Rightarrow> world \<Rightarrow> (exn + unit) \<times> world" where
  "delete sys iqn ip w =
     (let cmd_str = delete_cmd_str iqn ip in
      case for_in (poll (polled_run_cmd sys) (ArgsList [cmd_str]) None
                      (Some DELETE_RETRY_COUNT) (Some ISCSIADM_RETRY_INTERVAL) None None None)
                  (delete_body sys) (None, None) w of
        (Exhausted (ret, out), w') \<Rightarrow>
          (Inl (Exn EnvironmentError [cmd_failed_msg sys cmd_str ret out]), w')
      | (Threw e _, w') \<Rightarrow> (Inl e, w')
      | (_, w') \<Rightarrow> (Inr (), remove_discovered sys (\<lambda>target. t_iqn target = iqn) w'))"


subsection \<open>\<^verbatim>\<open>force_logout_all\<close> and \<^verbatim>\<open>destroy_iface\<close>\<close>

text \<open>
  \<^verbatim>\<open>remove_target_from_iscsi_loggedin_targets\<close>; the subscript raises \<^verbatim>\<open>KeyError\<close>
  when the system has no entry.
\<close>

definition remove_target_from_iscsi_loggedin_targets ::
    "system \<Rightarrow> string option \<Rightarrow> world \<Rightarrow> (exn + unit) \<times> world" where
  "remove_target_from_iscsi_loggedin_targets sys iface_name w =
     (case ISCSI_LOGGEDIN_TARGETS w (name sys) of
        None \<Rightarrow> (Inl (Exn KeyError [name sys]), w)
      | Some targets \<Rightarrow>
          (Inr (), w\<lparr>ISCSI_LOGGEDIN_TARGETS :=
                      (ISCSI_LOGGEDIN_TARGETS w)(name sys \<mapsto>
                         remove_matching_loop targets (\<lambda>target. t_iface target = iface_name)
                           targets)\<rparr>))"

definition force_logout_all_cmd_str :: "string option \<Rightarrow> string" where
  "force_logout_all_cmd_str iface_name =
     join '' ''
       ([''iscsiadm'', ''-m'', ''node'']
        @ (if truthy iface_name then [''-I'', fmt_str_opt iface_name] else [])
        @ [''-u'', ''all''])"

text \<open>
  The condition \<^verbatim>\<open>("No matching sessions found" or "Could not read iface info for" in output)\<close>
  is \<^verbatim>\<open>A or (B in output)\<close>: the string \<^verbatim>\<open>A\<close> in a condition, then the membership
  test.
\<close>

definition force_logout_all :: "system \<Rightarrow> string option \<Rightarrow> world \<Rightarrow> (exn + unit) \<times> world" where
  "force_logout_all sys iface_name w =
     (let cmd_str = force_logout_all_cmd_str iface_name in
      case run_cmd sys cmd_str w of
        ((ret, out), w1) \<Rightarrow>
          if ret \<noteq> 0 then
            (if truthy (Some ''No matching sessions found'')
                \<or> is_substring ''Could not read iface info for'' out
             then (Inr (), w1)
             else (Inl (Exn EnvironmentError [cmd_failed_msg sys cmd_str (Some ret) (Some out)]),
                   w1))
          else if truthy iface_name then
            (case ISCSI_LOGGEDIN_TARGETS w1 (name sys) of
               None \<Rightarrow> (Inr (), w1)
             | Some targets \<Rightarrow>
                 if targets \<noteq> [] then remove_target_from_iscsi_loggedin_targets sys iface_name w1
                 else (Inr (), w1))
          else
            (case ISCSI_LOGGEDIN_TARGETS w1 (name sys) of
               None \<Rightarrow> (Inl (Exn KeyError [name sys]), w1)
             | Some _ \<Rightarrow>
                 (Inr (), w1\<lparr>ISCSI_LOGGEDIN_TARGETS :=
                              (ISCSI_LOGGEDIN_TARGETS w1)(name sys := None)\<rparr>)))"

definition destroy_iface_cmd :: "string \<Rightarrow> string" where
  "destroy_iface_cmd iface_name = ''iscsiadm -m iface -I '' @ iface_name @ '' -o delete''"

definition destroy_iface_failed_msg :: "system \<Rightarrow> string \<Rightarrow> int \<Rightarrow> string \<Rightarrow> string" where
  "destroy_iface_failed_msg sys cmd ret out =
     ''Command failed ($?='' @ str_int ret @ '' on'' @ name sys @ '':'' @ [CHR 0x0A]
       @ '' '' @ cmd @ '' '' @ [CHR 0x0A] @ '' '' @ out"

text \<open>
  The loop \<^verbatim>\<open>while retries > 0\<close> of \<^verbatim>\<open>destroy_iface\<close>, on the value of
  \<^verbatim>\<open>retries\<close>. After the tests \<^verbatim>\<open>ret == 0\<close> and \<^verbatim>\<open>ret == 6\<close> the test
  \<^verbatim>\<open>ret != 0\<close> of the last branch holds.
\<close>

fun destroy_iface_loop :: "system \<Rightarrow> string \<Rightarrow> nat \<Rightarrow> world \<Rightarrow> unit for_exit \<times> world" where
  "destroy_iface_loop sys cmd 0 w = (Exhausted (), w)"
| "destroy_iface_loop sys cmd (Suc retries) w =
     (case run_cmd sys cmd w of
        ((ret, out), w1) \<Rightarrow>
          if ret = 0 then (Broke (), w1)
          else if ret = 6 then
            (case sleep 5 w1 of
               Inl e \<Rightarrow> (Threw e (), w1)
             | Inr w2 \<Rightarrow> destroy_iface_loop sys cmd retries w2)
          else if truthy (Some ''Could not delete iface'')
                  \<or> is_substring ''Could not read iface info'' out
          then (Returned (), w1)
          else (Threw (Exn EnvironmentError [destroy_iface_failed_msg sys cmd ret out]) (), w1))"

definition destroy_iface :: "system \<Rightarrow> string \<Rightarrow> world \<Rightarrow> (exn + unit) \<times> world" where
  "destroy_iface sys iface_name w =
     (case force_logout_all sys (Some iface_name) w of
        (Inl e, w1) \<Rightarrow> (Inl e, w1)
      | (Inr _, w1) \<Rightarrow>
          (case destroy_iface_loop sys (destroy_iface_cmd iface_name) 10 w1 of
             (Threw e _, w2) \<Rightarrow> (Inl e, w2)
           | (Returned _, w2) \<Rightarrow> (Inr (), w2)
           | (_, w2) \<Rightarrow>
               (Inr (), remove_discovered sys (\<lambda>target. t_iface target = Some iface_name) w2)))"

subsection \<open>\<^verbatim>\<open>_parse_discovery_result\<close>\<close>

text \<open>
  \<^verbatim>\<open>re.finditer('(.*)\n', result)\<close>: the lines that end in a newline, in order; what
  follows the last newline is no match. The lines are kept without their newline, which
  the second pattern cannot reach.
\<close>

fun finditer_lines :: "string \<Rightarrow> string \<Rightarrow> string list" where
  "finditer_lines [] acc = []"
| "finditer_lines (c # cs) acc =
     (if c = CHR 0x0A then rev acc # finditer_lines cs [] else finditer_lines cs (c # acc))"

definition occurs_at :: "string \<Rightarrow> string \<Rightarrow> nat \<Rightarrow> bool" where
  "occurs_at pat s i = (take (length pat) (drop i s) = pat)"

definition is_digit :: "char \<Rightarrow> bool" where
  "is_digit c = (c \<in> set ''0123456789'')"

text \<open>
  \<^verbatim>\<open>re.search('(^\d.*):' + port + '.*(iqn.*)', line)\<close> and its two groups. The match
  starts at the head of the line, on a digit. Both \<^verbatim>\<open>.*\<close> are greedy: the second
  group starts at the last \<^verbatim>\<open>iqn\<close> of the line, and the first group ends at the last
  \<^verbatim>\<open>:port\<close> that lies after the first character and ends before that \<^verbatim>\<open>iqn\<close>.
\<close>

definition search_ip_iqn :: "string \<Rightarrow> string \<Rightarrow> (string \<times> string) option" where
  "search_ip_iqn port_str line =
     (case line of
        [] \<Rightarrow> None
      | c # _ \<Rightarrow>
          if \<not> is_digit c then None
          else
            (case find (occurs_at ''iqn'' line) (rev [0..<length line]) of
               None \<Rightarrow> None
             | Some q \<Rightarrow>
                 (case find (occurs_at (CHR '':'' # port_str) line)
                         (rev [1..<Suc q - length (CHR '':'' # port_str)]) of
                    None \<Rightarrow> None
                  | Some p \<Rightarrow> Some (take p line, drop q line))))"

text \<open>
  The dictionary \<^verbatim>\<open>ip_iqn_dict\<close> as the list of its items in the order of insertion
  (the order in which Python 2 iterates over it is not determined by the code);
  \<^verbatim>\<open>setdefault\<close> keeps the first value of a key.
\<close>

definition setdefault :: "'k \<Rightarrow> 'v \<Rightarrow> ('k \<times> 'v) list \<Rightarrow> ('k \<times> 'v) list" where
  "setdefault k v d = (if k \<in> fst ` set d then d else d @ [(k, v)])"

fun parse_lines :: "string \<Rightarrow> string list \<Rightarrow> ((string \<times> string) \<times> string) list \<Rightarrow>
    ((string \<times> string) \<times> string) list" where
  "parse_lines port_str [] d = d"
| "parse_lines port_str (line # rest) d =
     (case search_ip_iqn port_str line of
        None \<Rightarrow> parse_lines port_str rest d
      | Some (discovered_ip, discovered_iqn) \<Rightarrow>
          parse_lines port_str rest
            (setdefault (discovered_ip, discovered_iqn) discovered_iqn d))"

definition parse_discovery_result :: "string \<Rightarrow> int \<Rightarrow> ((string \<times> string) \<times> string) list" where
  "parse_discovery_result result port =
     parse_lines (str_int port) (finditer_lines result []) []"

definition is_iqn_subset_of_discovered_iqns :: "string list \<Rightarrow> string list \<Rightarrow> bool" where
  "is_iqn_subset_of_discovered_iqns iqns discovered_iqns = (set iqns \<subseteq> set discovered_iqns)"

subsection \<open>\<^verbatim>\<open>discover\<close>\<close>

text \<open>The argument \<^verbatim>\<open>iqn\<close>: \<^verbatim>\<open>None\<close>, one IQN or a list of IQNs.\<close>

datatype iqn_arg = IqnNone | IqnStr string | IqnList "string list"

fun iqn_truthy :: "iqn_arg \<Rightarrow> bool" where
  "iqn_truthy IqnNone = False"
| "iqn_truthy (IqnStr s) = (s \<noteq> [])"
| "iqn_truthy (IqnList l) = (l \<noteq> [])"

fun iqns_of :: "iqn_arg \<Rightarrow> string list" where
  "iqns_of IqnNone = []"
| "iqns_of (IqnStr s) = [s]"
| "iqns_of (IqnList l) = l"

text \<open>\<^verbatim>\<open>'%s' % iqn\<close>; of a list, its elements as \<^verbatim>\<open>u'...'\<close> without escapes.\<close>

fun fmt_iqn_arg :: "iqn_arg \<Rightarrow> string" where
  "fmt_iqn_arg IqnNone = ''None''"
| "fmt_iqn_arg (IqnStr s) = s"
| "fmt_iqn_arg (IqnList l) = ''['' @ join '', '' (map (\<lambda>s. ''u'' @ [CHR 0x27] @ s @ [CHR 0x27]) l) @ '']''"

definition discover_cmd_str :: "string \<Rightarrow> iqn_arg \<Rightarrow> int \<Rightarrow> string option \<Rightarrow> string" where
  "discover_cmd_str ip iqn port iface_name =
     join '' ''
       ([''iscsiadm'', ''-m'', ''discovery'', ''-t'', ''sendtargets'', ''-p'',
         ip @ '':'' @ str_int port]
        @ (case iqn of
             IqnStr s \<Rightarrow> (if truthy iface_name then [''-I'', fmt_str_opt iface_name] else [])
                         @ [''|'', ''grep'', s]
           | _ \<Rightarrow> []))"

text \<open>
  Adding a target to \<^verbatim>\<open>DISCOVERED_TARGETS\<close> or \<^verbatim>\<open>ISCSI_LOGGEDIN_TARGETS\<close>: a new
  list for a system without an entry, else appended unless already in the list.
\<close>

definition add_target :: "string \<Rightarrow> IscsiTarget \<Rightarrow> (string \<rightharpoonup> IscsiTarget list) \<Rightarrow>
    (string \<rightharpoonup> IscsiTarget list)" where
  "add_target host target reg =
     (case reg host of
        None \<Rightarrow> reg(host \<mapsto> [target])
      | Some targets \<Rightarrow>
          if target \<notin> set targets then reg(host \<mapsto> targets @ [target]) else reg)"

text \<open>The loop over the items of \<^verbatim>\<open>ip_iqn_dict\<close> that registers the matching targets.\<close>

fun register_discovered :: "system \<Rightarrow> string list \<Rightarrow> int \<Rightarrow> string option \<Rightarrow>
    ((string \<times> string) \<times> string) list \<Rightarrow> world \<Rightarrow> world" where
  "register_discovered sys iqns port iface_name [] w = w"
| "register_discovered sys iqns port iface_name ((ip_iqn, iqn) # rest) w =
     (if iqn \<in> set iqns then
        register_discovered sys iqns port iface_name rest
          (w\<lparr>DISCOVERED_TARGETS :=
               add_target (name sys)
                 \<lparr>t_ip = Some (fst ip_iqn), t_port = port, t_iqn = snd ip_iqn,
                  t_iface = iface_name\<rparr>
                 (DISCOVERED_TARGETS w)\<rparr>)
      else register_discovered sys iqns port iface_name rest w)"

text \<open>
  The body of the loop of \<^verbatim>\<open>discover\<close>; the local variables are \<^verbatim>\<open>status\<close> and
  \<^verbatim>\<open>result\<close>. \<^verbatim>\<open>_parse_discovery_result\<close> is called with its default port.
\<close>

definition discover_body :: "system \<Rightarrow> string list \<Rightarrow> int \<Rightarrow> string option \<Rightarrow> int \<Rightarrow> int \<Rightarrow>
    (int \<times> string) option \<Rightarrow> int option \<times> string option \<Rightarrow> world \<Rightarrow>
    (int option \<times> string option) flow \<times> world" where
  "discover_body sys iqns port iface_name start_time0 timeout v locals w =
     (case v of
        None \<Rightarrow> (Throw (Exn TypeError [''NoneType object is not iterable'']) locals, w)
      | Some (status, result) \<Rightarrow>
          (let locals1 = (Some status, Some result);
               check_timeout = (if now w - start_time0 > timeout then (Break locals1, w)
                                else (Next locals1, w))
           in if status = 0 \<and> result \<noteq> [] then
                (let ip_iqn_dict = parse_discovery_result result 3260 in
                 if length (map fst ip_iqn_dict) = 0 then (Next locals1, w)
                 else if is_iqn_subset_of_discovered_iqns iqns (map snd ip_iqn_dict)
                 then (Return locals1,
                       register_discovered sys iqns port iface_name ip_iqn_dict w)
                 else check_timeout)
              else check_timeout))"

text \<open>
  \<^verbatim>\<open>discover\<close> up to the end of its loop, and \<^verbatim>\<open>discover\<close>. After \<^verbatim>\<open>break\<close> the
  \<^verbatim>\<open>else\<close> clause of the loop is skipped and the function ends.
\<close>

definition discover_loop :: "system \<Rightarrow> string \<Rightarrow> iqn_arg \<Rightarrow> int \<Rightarrow> string option \<Rightarrow> int \<Rightarrow>
    world \<Rightarrow> (int option \<times> string option) for_exit \<times> world" where
  "discover_loop sys ip iqn port iface_name timeout w =
     for_in (poll (polled_run_cmd sys) (ArgsList [discover_cmd_str ip iqn port iface_name]) None
               (Some DISCOVERY_RETRY_COUNT) (Some ISCSIADM_RETRY_INTERVAL) None None None)
            (discover_body sys (iqns_of iqn) port iface_name (now w) timeout) (None, None) w"

definition discover_failed_msg :: "system \<Rightarrow> iqn_arg \<Rightarrow> string \<Rightarrow> string \<Rightarrow> string" where
  "discover_failed_msg sys iqn result cmd_str =
     name sys @ '': IQN:'' @ fmt_iqn_arg iqn @ '' not found in discovery result:'' @ [CHR 0x0A]
       @ result @ [CHR 0x0A] @ ''with cmd: '' @ cmd_str"

definition discover :: "system \<Rightarrow> string \<Rightarrow> iqn_arg \<Rightarrow> int \<Rightarrow> string option \<Rightarrow> int \<Rightarrow>
    world \<Rightarrow> (exn + unit) \<times> world" where
  "discover sys ip iqn port iface_name timeout w =
     (if \<not> iqn_truthy iqn then (Inl (Exn EnvironmentError [''iqn is required'']), w)
      else
        (case discover_loop sys ip iqn port iface_name timeout w of
           (Exhausted (status, result), w') \<Rightarrow>
             (case result of
                None \<Rightarrow> (Inl (Exn UnboundLocalError
                         [''local variable result referenced before assignment'']), w')
              | Some r \<Rightarrow>
                  (Inl (Exn EnvironmentError
                     [discover_failed_msg sys iqn r (discover_cmd_str ip iqn port iface_name)]),
                   w'))
         | (Threw e _, w') \<Rightarrow> (Inl e, w')
         | (_, w') \<Rightarrow> (Inr (), w')))"


subsection \<open>\<^verbatim>\<open>login\<close> and \<^verbatim>\<open>login_all_targets\<close>\<close>

definition login_cmd_str :: "string \<Rightarrow> string option \<Rightarrow> int \<Rightarrow> string option \<Rightarrow> string" where
  "login_cmd_str iqn ip port iface_name =
     join '' ''
       ([''iscsiadm -m node -T'', iqn]
        @ (if truthy ip then [''-p'', fmt_str_opt ip @ '':'' @ str_int port] else [])
        @ (if truthy iface_name then [''-I'', fmt_str_opt iface_name] else [])
        @ [''--login''])"

definition login_body :: "system \<Rightarrow> string \<Rightarrow> string option \<Rightarrow> int \<Rightarrow> string option \<Rightarrow>
    (int \<times> string) option \<Rightarrow> int option \<times> string option \<Rightarrow> world \<Rightarrow>
    (int option \<times> string option) flow \<times> world" where
  "login_body sys iqn ip port iface_name v locals w =
     (case v of
        None \<Rightarrow> (Throw (Exn TypeError [''NoneType object is not iterable'']) locals, w)
      | Some (status, result) \<Rightarrow>
          if status = 0 then
            (Return (Some status, Some result),
             w\<lparr>ISCSI_LOGGEDIN_TARGETS :=
                 add_target (name sys)
                   \<lparr>t_ip = ip, t_port = port, t_iqn = iqn, t_iface = iface_name\<rparr>
                   (ISCSI_LOGGEDIN_TARGETS w)\<rparr>)
          else if status \<in> set [3, 8, 21] then (Return (Some status, Some result), w)
          else (Next (Some status, Some result), w))"

definition login_failed_msg :: "system \<Rightarrow> string \<Rightarrow> int \<Rightarrow> string \<Rightarrow> string \<Rightarrow> string" where
  "login_failed_msg sys iqn status result cmd_str =
     name sys @ '': iSCSI login to IQN:'' @ iqn @ '' FAILED with status:'' @ str_int status
       @ '', output='' @ result @ '' using cmd:'' @ cmd_str"

text \<open>
  \<^verbatim>\<open>login\<close>. When the loop ends (or is left by an exception of the poller) the
  message is built from \<^verbatim>\<open>status\<close> and \<^verbatim>\<open>result\<close>, which no iteration may have
  bound.
\<close>

definition login :: "system \<Rightarrow> string \<Rightarrow> string option \<Rightarrow> int \<Rightarrow> string option \<Rightarrow> int \<Rightarrow>
    world \<Rightarrow> (exn + unit) \<times> world" where
  "login sys iqn ip port iface_name timeout w =
     (let cmd_str = login_cmd_str iqn ip port iface_name in
      case for_in (poll (polled_run_cmd sys) (ArgsList [cmd_str]) None
                      (Some timeout) (Some 1) None None None)
                  (login_body sys iqn ip port iface_name) (None, None) w of
        (Exhausted (Some status, Some result), w') \<Rightarrow>
          (Inl (Exn EnvironmentError [login_failed_msg sys iqn status result cmd_str]), w')
      | (Exhausted _, w') \<Rightarrow>
          (Inl (Exn UnboundLocalError
             [''local variable status referenced before assignment'']), w')
      | (Threw e _, w') \<Rightarrow> (Inl e, w')
      | (_, w') \<Rightarrow> (Inr (), w'))"

text \<open>
  Modelled from the spec: \<^verbatim>\<open>qalib.qabase.threading.Parallel\<close> is imported by
  \<^verbatim>\<open>qalib/client/iscsi.py\<close> and is not among the sources. By the specification's
  section 4.5 the runner takes independent tasks and a maximum worker count, attempts
  every task, a failure in one not cancelling the others, and surfaces the failures as
  one aggregate afterwards; by its section 5 the tasks of one batch have no order among
  them. Here the runner takes the tasks up in the order \<open>order\<close>, a list of positions
  in the task list that the caller does not choose (positions outside the list are passed
  over), and a task runs to its end before the next one starts, as with one worker.
\<close>

fun run_tasks :: "(world \<Rightarrow> (exn + unit) \<times> world) list \<Rightarrow> exn list \<Rightarrow> world \<Rightarrow>
    exn list \<times> world" where
  "run_tasks [] failures w = (failures, w)"
| "run_tasks (task # tasks) failures w =
     (case task w of
        (Inl e, w') \<Rightarrow> run_tasks tasks (failures @ [e]) w'
      | (Inr _, w') \<Rightarrow> run_tasks tasks failures w')"

definition run_threads :: "(world \<Rightarrow> (exn + unit) \<times> world) list \<Rightarrow> nat \<Rightarrow> nat list \<Rightarrow>
    world \<Rightarrow> (exn + unit) \<times> world" where
  "run_threads tasks max_workers order w =
     (case run_tasks (map (\<lambda>i. tasks ! i) (filter (\<lambda>i. i < length tasks) order)) [] w of
        ([], w') \<Rightarrow> (Inr (), w')
      | (e # es, w') \<Rightarrow>
          (Inl (Exn (OtherException ''ParallelFailure'') (concat (map exn_args (e # es)))), w'))"

text \<open>The orders in which a runner can take up \<open>n\<close> tasks: each position once.\<close>

definition is_schedule :: "nat \<Rightarrow> nat list \<Rightarrow> bool" where
  "is_schedule n order = (distinct order \<and> set order = {..<n})"

definition UDEV_TIMEOUT :: int where "UDEV_TIMEOUT = 960"

text \<open>
  The arguments \<^verbatim>\<open>login_all_targets\<close> collects in \<^verbatim>\<open>args_list\<close>, one tuple for each
  element of \<^verbatim>\<open>DISCOVERED_TARGETS[name]\<close>, the command \<^verbatim>\<open>login\<close> runs on such
  a tuple, the command the method runs at its end, and the method, with the order in
  which the runner takes up the logins. Both subscripts raise
  \<^verbatim>\<open>KeyError\<close> for a system without an entry.
\<close>

definition login_args_list :: "IscsiTarget list \<Rightarrow>
    (string \<times> string option \<times> int \<times> string option) list" where
  "login_args_list targets_all =
     map (\<lambda>target. (t_iqn target, t_ip target, 3260, t_iface target)) targets_all"

definition login_command :: "IscsiTarget \<Rightarrow> string" where
  "login_command target = login_cmd_str (t_iqn target) (t_ip target) 3260 (t_iface target)"

definition udev_cmd :: "int \<Rightarrow> string" where
  "udev_cmd udev_timeout =
     ''sleep 1 ; udevadm trigger ; sleep 1 ; udevadm settle --timeout='' @ str_int udev_timeout"

definition login_all_targets :: "system \<Rightarrow> int \<Rightarrow> string option \<Rightarrow> nat list \<Rightarrow> world \<Rightarrow>
    (exn + unit) \<times> world" where
  "login_all_targets sys udev_timeout iface_name order w =
     (case DISCOVERED_TARGETS w (name sys) of
        None \<Rightarrow> (Inl (Exn KeyError [name sys]), w)
      | Some targets_all \<Rightarrow>
          (let targets = filter (\<lambda>target. t_iface target = iface_name) targets_all;
               w1 = (if length targets = 0
                     then log_msg WARNING
                            (''Num of discovered targets with iface_name ''
                               @ fmt_str_opt iface_name @ '' is 0'') w
                     else w)
           in case run_threads
                     (map (\<lambda>(iqn, ip, port, iface). login sys iqn ip port iface 20)
                        (login_args_list targets_all))
                     (max_iscsi_worker sys) order w1 of
                (Inl e, w2) \<Rightarrow> (Inl e, w2)
              | (Inr _, w2) \<Rightarrow>
                  (case run_cmd_check sys (udev_cmd udev_timeout) w2 of
                     (Inl e, w3) \<Rightarrow> (Inl e, w3)
                   | (Inr _, w3) \<Rightarrow> (Inr (), w3))))"

section \<open>Opening the SSH transport\<close>





















section \<open>Running the poller\<close>

text \<open>
  The loop body of \<^verbatim>\<open>for v in gen: vs.append(v)\<close>; a polled function that returns
  how many calls were made before it and records its own; and a world in which nothing
  has happened.
\<close>

definition collect :: "'r option \<Rightarrow> 'r option list \<Rightarrow> world \<Rightarrow> 'r option list flow \<times> world" where
  "collect v vs w = (Next (vs @ [v]), w)"

definition count_calls :: "(string, nat) polled" where
  "count_calls as kw w = (Inr (length (issued w)), w\<lparr>issued := issued w @ [''call'']\<rparr>)"

definition world0 :: world where
  "world0 = \<lparr>now = 0, issued = [], logged = [], slept = [],
             DISCOVERED_TARGETS = Map.empty, ISCSI_LOGGEDIN_TARGETS = Map.empty\<rparr>"

text \<open>
  The frame of \<^verbatim>\<open>poll(self.system.run_cmd, args=[cmd], retries=R, interval=I)\<close> that
  started at \<open>st\<close> and has completed \<open>c\<close> attempts.
\<close>

definition cmd_frame :: "system \<Rightarrow> string \<Rightarrow> int \<Rightarrow> int \<Rightarrow> int \<Rightarrow> int \<Rightarrow>
    (string, int \<times> string) poll_frame" where
  "cmd_frame sys cmd R I st c =
     \<lparr>pf_function = polled_run_cmd sys, pf_args = [cmd], pf_kwargs = [], pf_exception = None,
      pf_inspection = None, pf_interval = I, pf_retries = Some R, pf_timeout = 1000000,
      current = c, start_time = st\<rparr>"

text \<open>The answer of the system to \<open>cmd\<close> after the commands \<open>h\<close>: status and output.\<close>

definition answer :: "system \<Rightarrow> string list \<Rightarrow> string \<Rightarrow> int \<times> string" where
  "answer sys h cmd = (fst (respond sys h cmd), fst (snd (respond sys h cmd)))"

definition duration :: "system \<Rightarrow> string list \<Rightarrow> string \<Rightarrow> nat" where
  "duration sys h cmd = snd (snd (respond sys h cmd))"

text \<open>
  The world after \<^verbatim>\<open>sleep(I)\<close>. A loop body that, on an answer that meets \<open>fails\<close>
  and up to the time \<open>B\<close>, binds the loop variables and goes to the next attempt without
  running a command, passing time or touching the two dictionaries. The loop variables
  after \<open>n\<close> failed attempts.
\<close>

definition after_sleep :: "int \<Rightarrow> world \<Rightarrow> world" where
  "after_sleep I w = w\<lparr>now := now w + I, slept := slept w @ [I]\<rparr>"

definition quiet_on :: "((int \<times> string) \<Rightarrow> bool) \<Rightarrow> int \<Rightarrow>
    ((int \<times> string) option \<Rightarrow> int option \<times> string option \<Rightarrow> world \<Rightarrow>
      (int option \<times> string option) flow \<times> world) \<Rightarrow> bool" where
  "quiet_on fails B body =
     (\<forall>r s w. fails r \<and> now w \<le> B \<longrightarrow>
        fst (body (Some r) s w) = Next (Some (fst r), Some (snd r))
        \<and> issued (snd (body (Some r) s w)) = issued w
        \<and> now (snd (body (Some r) s w)) = now w
        \<and> DISCOVERED_TARGETS (snd (body (Some r) s w)) = DISCOVERED_TARGETS w
        \<and> ISCSI_LOGGEDIN_TARGETS (snd (body (Some r) s w)) = ISCSI_LOGGEDIN_TARGETS w)"

definition fail_locals :: "system \<Rightarrow> string \<Rightarrow> string list \<Rightarrow> nat \<Rightarrow>
    int option \<times> string option \<Rightarrow> int option \<times> string option" where
  "fail_locals sys cmd h n s =
     (if n = 0 then s
      else (Some (fst (answer sys (h @ replicate (n - 1) cmd) cmd)),
            Some (snd (answer sys (h @ replicate (n - 1) cmd) cmd))))"

text \<open>The next \<open>n\<close> answers to \<open>cmd\<close> after the commands \<open>h\<close> all fail, each within \<open>D\<close> ticks.\<close>

definition fails_next :: "system \<Rightarrow> string \<Rightarrow> ((int \<times> string) \<Rightarrow> bool) \<Rightarrow> nat \<Rightarrow>
    string list \<Rightarrow> nat \<Rightarrow> bool" where
  "fails_next sys cmd fails D h n =
     (\<forall>k<n. fails (answer sys (h @ replicate k cmd) cmd)
             \<and> duration sys (h @ replicate k cmd) cmd \<le> D)"

text \<open>What a run of failing attempts leaves behind.\<close>

definition ran :: "system \<Rightarrow> string \<Rightarrow> nat \<Rightarrow> int \<Rightarrow> nat \<Rightarrow> world \<Rightarrow>
    int option \<times> string option \<Rightarrow> world \<Rightarrow> int option \<times> string option \<Rightarrow> bool" where
  "ran sys cmd n I D w s w' s' =
     (issued w' = issued w @ replicate n cmd
      \<and> now w \<le> now w' \<and> now w' \<le> now w + int n * (I + int D)
      \<and> DISCOVERED_TARGETS w' = DISCOVERED_TARGETS w
      \<and> ISCSI_LOGGEDIN_TARGETS w' = ISCSI_LOGGEDIN_TARGETS w
      \<and> s' = fail_locals sys cmd (issued w) n s)"

text \<open>
  The answers after which \<^verbatim>\<open>logout\<close> and \<^verbatim>\<open>delete\<close> go on to another attempt:
  neither \<^verbatim>\<open>ret == 0\<close> nor the test of the \<^verbatim>\<open>elif\<close> holds.
\<close>

definition logout_fails :: "int \<times> string \<Rightarrow> bool" where
  "logout_fails r = (fst r \<noteq> 0 \<and> fst r \<notin> set logout_error_code
                     \<and> snd r \<notin> set logout_error_response)"


text \<open>A stub system that gives the same answer to every command, after \<open>d\<close> ticks.\<close>

definition stub_sys :: "int \<Rightarrow> string \<Rightarrow> nat \<Rightarrow> system" where
  "stub_sys ret out d = \<lparr>name = ''client1'', on_hardware = True, respond = (\<lambda>h c. (ret, out, d))\<rparr>"

text \<open>
  A system whose first command succeeds and whose later commands find nothing left (exit
  code 21); a target; and a world in which the system \<^verbatim>\<open>client1\<close> has discovered the
  target and is logged in to it.
\<close>

definition once_sys :: system where
  "once_sys = \<lparr>name = ''client1'', on_hardware = True,
               respond = (\<lambda>h c. if h = [] then (0, [], 0)
                                else (21, ''iscsiadm: No matching sessions found'', 0))\<rparr>"

definition target_a :: IscsiTarget where
  "target_a = \<lparr>t_ip = Some ''10.0.0.1'', t_port = 3260, t_iqn = ''iqn.a'',
               t_iface = Some ''default''\<rparr>"

definition world_a :: world where
  "world_a = world0\<lparr>DISCOVERED_TARGETS := [''client1'' \<mapsto> [target_a]],
                    ISCSI_LOGGEDIN_TARGETS := [''client1'' \<mapsto> [target_a]]\<rparr>"

text \<open>
  A second target, on another interface, and a world in which the system \<^verbatim>\<open>client1\<close>
  has discovered both targets and is logged in to none.
\<close>

definition target_b :: IscsiTarget where
  "target_b = \<lparr>t_ip = Some ''10.0.0.2'', t_port = 3260, t_iqn = ''iqn.b'',
               t_iface = Some ''iser0''\<rparr>"

definition world_ab :: world where
  "world_ab = world0\<lparr>DISCOVERED_TARGETS := [''client1'' \<mapsto> [target_a, target_b]]\<rparr>"

text \<open>
  The answers after which \<^verbatim>\<open>discover\<close> does not return: the status is not 0, the
  output is empty, nothing is parsed from it, or a requested IQN is missing from it.
\<close>

definition discover_fails :: "string list \<Rightarrow> int \<times> string \<Rightarrow> bool" where
  "discover_fails iqns r =
     (\<not> (fst r = 0 \<and> snd r \<noteq> [] \<and> parse_discovery_result (snd r) 3260 \<noteq> []
         \<and> is_iqn_subset_of_discovered_iqns iqns (map snd (parse_discovery_result (snd r) 3260))))"

text \<open>The targets \<^verbatim>\<open>discover\<close> builds from the parsed pairs whose IQN was requested.\<close>

definition matching_targets :: "string list \<Rightarrow> int \<Rightarrow> string option \<Rightarrow>
    ((string \<times> string) \<times> string) list \<Rightarrow> IscsiTarget set" where
  "matching_targets iqns port iface_name d =
     (\<lambda>k. \<lparr>t_ip = Some (fst k), t_port = port, t_iqn = snd k, t_iface = iface_name\<rparr>)
       ` {k \<in> fst ` set d. snd k \<in> set iqns}"

text \<open>The targets a system has in a dictionary; none without an entry.\<close>

definition targets_of :: "(string \<rightharpoonup> IscsiTarget list) \<Rightarrow> string \<Rightarrow> IscsiTarget set" where
  "targets_of reg host = (case reg host of None \<Rightarrow> {} | Some targets \<Rightarrow> set targets)"

text \<open>
  The scenario of the specification: two portals, \<^verbatim>\<open>iqn.a\<close> at \<^verbatim>\<open>10.0.0.1\<close> and
  \<^verbatim>\<open>iqn.b\<close> at \<^verbatim>\<open>10.0.0.2\<close>; the first two discovery attempts report only the first,
  the third reports both. Every answer takes one tick.
\<close>

definition out_a :: string where
  "out_a = ''10.0.0.1:3260,1 iqn.a'' @ [CHR 0x0A]"

definition out_ab :: string where
  "out_ab = ''10.0.0.1:3260,1 iqn.a'' @ [CHR 0x0A] @ ''10.0.0.2:3260,1 iqn.b'' @ [CHR 0x0A]"

definition scenario_sys :: system where
  "scenario_sys = \<lparr>name = ''client1'', on_hardware = True,
                   respond = (\<lambda>h c. if length h < 2 then (0, out_a, 1) else (0, out_ab, 1))\<rparr>"

section \<open>Loops over the poller terminate\<close>

lemma poll_iter_Yield:
  assumes "poll_iter fr w = (Yield v g, w')"
  shows "g = Suspended fr \<and> py2_less (current fr) (pf_retries fr)"
  using assms
  by (auto simp: poll_iter_def split: if_splits prod.splits sum.splits option.splits list.splits)

lemma py2_less_fuel:
  "py2_less (current fr) (pf_retries fr) \<Longrightarrow>
     \<exists>r. pf_retries fr = Some r \<and> current fr < r"
  by (cases "pf_retries fr") auto

lemma poll_interval_fst: "fst (poll_interval interval w) = (case interval of None \<Rightarrow> 1 | Some i \<Rightarrow> i)"
  by (cases interval) simp_all

lemma poll_default_retries_fst:
  "fst (poll_default_retries timeout retries w)
     = (case (timeout, retries) of (None, None) \<Rightarrow> Some 20 | _ \<Rightarrow> retries)"
  by (cases timeout; cases retries) simp_all

lemma poll_start_Inr:
  assumes "poll_start f args kwargs retries interval timeout exception inspection w = (Inr fr, w')"
  shows "current fr = 0"
    and "poll_budget timeout (case (timeout, retries) of (None, None) \<Rightarrow> Some 20 | _ \<Rightarrow> retries)
           (case interval of None \<Rightarrow> 1 | Some i \<Rightarrow> i) = Inr (pf_retries fr, pf_timeout fr)"
    and "pf_interval fr = (case interval of None \<Rightarrow> 1 | Some i \<Rightarrow> i)"
    and "start_time fr = now w'"
    and "pf_function fr = f"
    and "pf_exception fr = exception"
    and "pf_inspection fr = inspection"
    and "poll_args args = Inr (pf_args fr)"
    and "w' = snd (poll_default_retries timeout retries (snd (poll_interval interval w)))"
proof -
  obtain as where as: "poll_args args = Inr as"
    using assms by (cases "poll_args args") (simp_all add: poll_start_def)
  let ?w1 = "snd (poll_interval interval w)"
  let ?i1 = "fst (poll_interval interval w)"
  let ?w2 = "snd (poll_default_retries timeout retries ?w1)"
  let ?r1 = "fst (poll_default_retries timeout retries ?w1)"
  obtain r2 t2 where b: "poll_budget timeout ?r1 ?i1 = Inr (r2, t2)"
    using assms as by (cases "poll_budget timeout ?r1 ?i1") (auto simp: poll_start_def Let_def)
  have fr: "fr = \<lparr>pf_function = f, pf_args = as, pf_kwargs = (case kwargs of None \<Rightarrow> [] | Some k \<Rightarrow> k),
                        pf_exception = exception, pf_inspection = inspection,
                        pf_interval = ?i1, pf_retries = r2,
                        pf_timeout = t2, current = 0, start_time = now ?w2\<rparr>"
    and w': "w' = ?w2"
    using assms as b by (auto simp: poll_start_def Let_def)
  show "current fr = 0" "pf_function fr = f" "pf_exception fr = exception"
    "pf_inspection fr = inspection" "start_time fr = now w'"
    "w' = snd (poll_default_retries timeout retries (snd (poll_interval interval w)))"
    by (simp_all add: fr w')
  show "poll_args args = Inr (pf_args fr)" by (simp add: fr as)
  show "pf_interval fr = (case interval of None \<Rightarrow> 1 | Some i \<Rightarrow> i)"
    by (simp add: fr poll_interval_fst)
  show "poll_budget timeout (case (timeout, retries) of (None, None) \<Rightarrow> Some 20 | _ \<Rightarrow> retries)
           (case interval of None \<Rightarrow> 1 | Some i \<Rightarrow> i) = Inr (pf_retries fr, pf_timeout fr)"
    using b by (simp add: fr poll_interval_fst poll_default_retries_fst)
qed

lemma poll_start_fuel:
  assumes "poll_start f args kwargs retries interval timeout exception inspection w = (Inr fr, w')"
  shows "gen_fuel (Created f args kwargs retries interval timeout exception inspection)
           = Suc (case pf_retries fr of None \<Rightarrow> 0 | Some r \<Rightarrow> nat r)"
  unfolding gen_fuel.simps poll_start_Inr(2)[OF assms]
  by (simp split: option.splits)

lemma gen_next_fuel:
  assumes "gen_next g w = (Yield v g', w')"
  shows "gen_fuel g' < gen_fuel g"
proof (cases g)
  case (Created f args kwargs retries interval timeout exception inspection)
  with assms obtain fr w1 where
    st: "poll_start f args kwargs retries interval timeout exception inspection w = (Inr fr, w1)"
    and it: "poll_iter fr w1 = (Yield v g', w')"
    by (auto split: prod.splits sum.splits)
  from poll_iter_Yield[OF it] py2_less_fuel[of fr] poll_start_fuel[OF st] poll_start_Inr(1)[OF st]
  show ?thesis using Created by auto
next
  case (Suspended fr)
  with assms obtain w1 where it: "poll_iter (fr\<lparr>current := current fr + 1\<rparr>) w1 = (Yield v g', w')"
    by (auto split: sum.splits)
  from poll_iter_Yield[OF it] py2_less_fuel[of "fr\<lparr>current := current fr + 1\<rparr>"]
  show ?thesis using Suspended by auto
next
  case Finished
  with assms show ?thesis by simp
qed

termination for_in
  by (relation "measure (\<lambda>(g, body, s, w). gen_fuel g)") (auto dest: gen_next_fuel[OF sym])

section \<open>Properties of the asynchronous command handle\<close>

lemma str_nat_digit: "n < 10 \<Longrightarrow> str_nat n = [digit_char n]"
  by (subst str_nat.simps) simp

text \<open>
  Claim C9. A block that the background thread appends while a \<^verbatim>\<open>read()\<close> call is
  between its slice and the assignment of \<^verbatim>\<open>_last_read_pointer\<close> is returned by no
  \<^verbatim>\<open>read()\<close> call: with \<^verbatim>\<open>ab\<close> received before the first call, \<^verbatim>\<open>cd\<close> received
  inside it and \<^verbatim>\<open>ef\<close> received after the second call, the three calls return
  \<^verbatim>\<open>ab\<close>, the empty string and \<^verbatim>\<open>ef\<close>, while \<^verbatim>\<open>output\<close> is \<^verbatim>\<open>abcdef\<close>.
\<close>

theorem Async_read_skips_block_appended_during_read:
  "run_events [Recv ''ab'', Step, Step, Step, Recv ''cd'', Step,
               Step, Step,
               Recv ''ef'', Step, Step, Step, Step] AtCacheTest Async_init
     = ([Inr ''ab'', Inr [], Inr ''ef''], AtCacheTest,
        \<lparr>output_cache = [[''ab''], [''cd''], [''ef'']], last_read_pointer = 3,
         recv_eof = False\<rparr>)
   \<and> output_prop \<lparr>output_cache = [[''ab''], [''cd''], [''ef'']], last_read_pointer = 3,
                   recv_eof = False\<rparr>
       = Inr ''abcdef''"
  by (simp add: Async_init_def recv_thread_step_def output_prop_def)

text \<open>
  The same three blocks with every append between two calls: the calls return
  \<^verbatim>\<open>ab\<close>, \<^verbatim>\<open>cd\<close> and \<^verbatim>\<open>ef\<close>.
\<close>

lemma Async_read_between_appends:
  "run_events [Recv ''ab'', Step, Step, Step, Step, Recv ''cd'',
               Step, Step, Step, Step,
               Recv ''ef'', Step, Step, Step, Step] AtCacheTest Async_init
     = ([Inr ''ab'', Inr ''cd'', Inr ''ef''], AtCacheTest,
        \<lparr>output_cache = [[''ab''], [''cd''], [''ef'']], last_read_pointer = 3,
         recv_eof = False\<rparr>)"
  by (simp add: Async_init_def recv_thread_step_def)

text \<open>
  A byte above 127 in the data: \<^verbatim>\<open>read()\<close> raises \<^verbatim>\<open>UnicodeDecodeError\<close> and leaves
  the cursor where it was, so the next call raises again, and \<^verbatim>\<open>output\<close> raises too.
\<close>

lemma Async_non_ascii_raises:
  "run_events [Recv [CHR ''a'', CHR 0xE9], Step, Step, Step, Step, Step, Step]
       AtCacheTest Async_init
     = ([Inl (Exn UnicodeDecodeError
                [''ascii'', [CHR ''a'', CHR 0xE9], ''1'', ''2'', ''ordinal not in range(128)'']),
         Inl (Exn UnicodeDecodeError
                [''ascii'', [CHR ''a'', CHR 0xE9], ''1'', ''2'', ''ordinal not in range(128)''])],
        AtCacheTest,
        \<lparr>output_cache = [[[CHR ''a'', CHR 0xE9]]], last_read_pointer = 0, recv_eof = False\<rparr>)"
  "output_prop \<lparr>output_cache = [[[CHR ''a'', CHR 0xE9]]], last_read_pointer = 0,
                 recv_eof = False\<rparr>
     = Inl (Exn UnicodeDecodeError
              [''ascii'', [CHR ''a'', CHR 0xE9], ''1'', ''2'', ''ordinal not in range(128)''])"
  by (simp_all add: Async_init_def recv_thread_step_def output_prop_def str_nat_digit
        digit_char_def)

section \<open>Properties of opening the SSH transport\<close>














section \<open>Properties of the bounded retry poller\<close>

lemma bit_length_numeral:
  "bit_length 0 = 0"
  "bit_length (Suc 0) = 1"
  "bit_length (numeral n) = Suc (bit_length (numeral n div 2))"
  by (subst bit_length.simps, simp)+

lemma int_truediv_examples:
  "int_truediv 10 3 = Inr 3"
  "int_truediv 0 1 = Inr 0"
  "int_truediv (- 7) 2 = Inr (- 3)"
  "int_truediv 5 0 = Inl (Exn ZeroDivisionError [''division by zero''])"
  by (simp_all add: int_truediv_def double_quotient_def round_half_even_def bit_length_numeral
        Let_def)

lemma int_truediv_rounds_up:
  "int_truediv (3 * 2 ^ 53 - 1) (2 ^ 53) = Inr 3"
  by (simp add: int_truediv_def double_quotient_def round_half_even_def bit_length_numeral
        Let_def)

lemma poll_start_timeout:
  assumes "timeout = Some t" "t \<noteq> 0" "poll_args args = Inr as"
    and "int_truediv t (case interval of None \<Rightarrow> 1 | Some i \<Rightarrow> i) = Inr r"
  shows "map_sum id (\<lambda>fr. (pf_retries fr, pf_timeout fr, current fr, pf_args fr))
           (fst (poll_start f args kwargs retries interval timeout exception inspection w))
         = Inr (Some r, t, 0, as)"
proof -
  have b: "poll_budget (Some t) r0 (fst (poll_interval interval w)) = Inr (Some r, t)" for r0
    using assms(2) assms(4) by (simp add: poll_interval_fst)
  show ?thesis
    unfolding poll_start_def assms(1) assms(3) Let_def b
    by (simp add: poll_interval_fst)
qed

lemma poll_iter_exhausted:
  "\<not> (py2_less (current fr) (pf_retries fr) \<and> now w - start_time fr < pf_timeout fr)
     \<Longrightarrow> poll_iter fr w = (StopIteration, w)"
  unfolding poll_iter_def by (simp only: if_False)

lemma poll_iter_step:
  "poll_iter fr w = (Yield v g', w') \<Longrightarrow>
     g' = Suspended fr
     \<and> w' = snd (pf_function fr (pf_args fr) (pf_kwargs fr) w)
     \<and> (case v of Some r \<Rightarrow> fst (pf_function fr (pf_args fr) (pf_kwargs fr) w) = Inr r
         | None \<Rightarrow> \<exists>e. fst (pf_function fr (pf_args fr) (pf_kwargs fr) w) = Inl e)"
  by (auto simp: poll_iter_def split: if_splits prod.splits sum.splits option.splits list.splits)

lemma poll_iter_raise:
  "poll_iter fr w = (Raise e, w') \<Longrightarrow>
     fst (pf_function fr (pf_args fr) (pf_kwargs fr) w) = Inl e
     \<or> e = Exn IndexError [''tuple index out of range'']"
  by (auto simp: poll_iter_def split: if_splits prod.splits sum.splits option.splits list.splits)

text \<open>
  Claim C5. The supplied timeout 0 does not take precedence over \<^verbatim>\<open>retries\<close>:
  \<^verbatim>\<open>poll(f, retries=3, interval=1, timeout=0)\<close> calls the polled function three times
  and yields its three results, sleeping one tick after each, before the generator ends,
  where the retry count \<^verbatim>\<open>int(0 / 1)\<close> is 0 and allows no attempt.
\<close>

theorem poll_timeout_zero_keeps_retries:
  "fst (for_in (poll count_calls ArgsNone None (Some 3) (Some 1) (Some 0) None None)
          collect [] world0)
     = Exhausted [Some 0, Some 1, Some 2]
   \<and> issued (snd (for_in (poll count_calls ArgsNone None (Some 3) (Some 1) (Some 0) None None)
                    collect [] world0))
       = [''call'', ''call'', ''call'']
   \<and> slept (snd (for_in (poll count_calls ArgsNone None (Some 3) (Some 1) (Some 0) None None)
                   collect [] world0))
       = [1, 1, 1]
   \<and> map_sum id (\<lambda>fr. (pf_retries fr, pf_timeout fr))
        (fst (poll_start count_calls ArgsNone None (Some 3) (Some 1) (Some 0) None None world0))
       = Inr (Some 3, 1000000)
   \<and> int_truediv 0 1 = Inr 0"
proof (intro conjI)
  have run: "for_in (poll count_calls ArgsNone None (Some 3) (Some 1) (Some 0) None None)
               collect [] world0
             = (Exhausted [Some 0, Some 1, Some 2],
                world0\<lparr>now := 3, issued := [''call'', ''call'', ''call''], slept := [1, 1, 1]\<rparr>)"
    by (simp add: poll_def poll_start_def poll_iter_def count_calls_def world0_def
          collect_def sleep_def Let_def)
  show "fst (for_in (poll count_calls ArgsNone None (Some 3) (Some 1) (Some 0) None None)
          collect [] world0)
     = Exhausted [Some 0, Some 1, Some 2]"
    unfolding run by simp
  show "issued (snd (for_in (poll count_calls ArgsNone None (Some 3) (Some 1) (Some 0) None None)
                    collect [] world0))
       = [''call'', ''call'', ''call'']"
    unfolding run by simp
  show "slept (snd (for_in (poll count_calls ArgsNone None (Some 3) (Some 1) (Some 0) None None)
                   collect [] world0))
       = [1, 1, 1]"
    unfolding run by simp
  show "map_sum id (\<lambda>fr. (pf_retries fr, pf_timeout fr))
     (fst (poll_start count_calls ArgsNone None (Some 3) (Some 1) (Some 0) None None world0))
     = Inr (Some 3, 1000000)"
    by (simp add: poll_start_def Let_def)
  show "int_truediv 0 1 = Inr 0" by (simp add: int_truediv_def)
qed

text \<open>
  With a timeout that is not 0 the retry count is the quotient, whatever \<^verbatim>\<open>retries\<close>
  was: \<^verbatim>\<open>poll(f, retries=3, interval=1, timeout=2)\<close> makes two attempts.
\<close>

lemma poll_timeout_two_ignores_retries:
  "fst (for_in (poll count_calls ArgsNone None (Some 3) (Some 1) (Some 2) None None)
          collect [] world0)
     = Exhausted [Some 0, Some 1]"
  by (simp add: poll_def poll_start_def poll_iter_def count_calls_def world0_def
        collect_def sleep_def Let_def int_truediv_def double_quotient_def round_half_even_def
        bit_length_numeral)

section \<open>Runs of failing attempts\<close>

declare for_in.simps [simp del]

lemma run_cmd_eq:
  "run_cmd sys cmd w = (answer sys (issued w) cmd,
      w\<lparr>now := now w + int (duration sys (issued w) cmd), issued := issued w @ [cmd]\<rparr>)"
  by (simp add: run_cmd_def answer_def duration_def split: prod.splits)

lemma gen_next_Created_cmd:
  "gen_next (poll (polled_run_cmd sys) (ArgsList [cmd]) None (Some R) (Some I) None None None) w
     = poll_iter (cmd_frame sys cmd R I (now w) 0) w"
  by (simp add: poll_def poll_start_def cmd_frame_def Let_def)

lemma poll_iter_cmd:
  "poll_iter (cmd_frame sys cmd R I st c) w =
     (if c < R \<and> now w - st < 1000000
      then (Yield (Some (answer sys (issued w) cmd)) (Suspended (cmd_frame sys cmd R I st c)),
            w\<lparr>now := now w + int (duration sys (issued w) cmd), issued := issued w @ [cmd]\<rparr>)
      else (StopIteration, w))"
  by (simp add: poll_iter_def cmd_frame_def polled_run_cmd_def run_cmd_eq)

lemma gen_next_Suspended_cmd:
  "0 \<le> I \<Longrightarrow>
   gen_next (Suspended (cmd_frame sys cmd R I st c)) w
     = poll_iter (cmd_frame sys cmd R I st (c + 1)) (w\<lparr>now := now w + I, slept := slept w @ [I]\<rparr>)"
  by (simp add: sleep_def cmd_frame_def)


lemma run_cmd_fields:
  "fst (run_cmd sys cmd w) = answer sys (issued w) cmd"
  "issued (snd (run_cmd sys cmd w)) = issued w @ [cmd]"
  "now (snd (run_cmd sys cmd w)) = now w + int (duration sys (issued w) cmd)"
  "logged (snd (run_cmd sys cmd w)) = logged w"
  "slept (snd (run_cmd sys cmd w)) = slept w"
  "DISCOVERED_TARGETS (snd (run_cmd sys cmd w)) = DISCOVERED_TARGETS w"
  "ISCSI_LOGGEDIN_TARGETS (snd (run_cmd sys cmd w)) = ISCSI_LOGGEDIN_TARGETS w"
  by (simp_all add: run_cmd_eq)

lemma poll_iter_cmd':
  "poll_iter (cmd_frame sys cmd R I st c) w =
     (if c < R \<and> now w - st < 1000000
      then (Yield (Some (fst (run_cmd sys cmd w))) (Suspended (cmd_frame sys cmd R I st c)),
            snd (run_cmd sys cmd w))
      else (StopIteration, w))"
  by (simp add: poll_iter_cmd run_cmd_eq)

lemma for_in_iter_cmd:
  assumes "gen_next g w0 = poll_iter (cmd_frame sys cmd R I st c) w"
  shows "for_in g body s w0 =
     (if c < R \<and> now w - st < 1000000 then
        (case body (Some (fst (run_cmd sys cmd w))) s (snd (run_cmd sys cmd w)) of
           (Next s', w'') \<Rightarrow> for_in (Suspended (cmd_frame sys cmd R I st c)) body s' w''
         | (Break s', w'') \<Rightarrow> (Broke s', w'')
         | (Return s', w'') \<Rightarrow> (Returned s', w'')
         | (Throw e s', w'') \<Rightarrow> (Threw e s', w''))
      else (Exhausted s, w))"
  by (subst for_in.simps) (simp add: assms poll_iter_cmd')

lemma for_in_Created_cmd:
  "for_in (poll (polled_run_cmd sys) (ArgsList [cmd]) None (Some R) (Some I) None None None) body s w =
     (if 0 < R then
        (case body (Some (fst (run_cmd sys cmd w))) s (snd (run_cmd sys cmd w)) of
           (Next s', w'') \<Rightarrow> for_in (Suspended (cmd_frame sys cmd R I (now w) 0)) body s' w''
         | (Break s', w'') \<Rightarrow> (Broke s', w'')
         | (Return s', w'') \<Rightarrow> (Returned s', w'')
         | (Throw e s', w'') \<Rightarrow> (Threw e s', w''))
      else (Exhausted s, w))"
  by (subst for_in_iter_cmd[OF gen_next_Created_cmd[of sys cmd R I w]]) simp

lemma for_in_Suspended_cmd:
  assumes "0 \<le> I"
  shows "for_in (Suspended (cmd_frame sys cmd R I st c)) body s w =
     (if c + 1 < R \<and> now w + I - st < 1000000 then
        (case body (Some (fst (run_cmd sys cmd (after_sleep I w)))) s
                (snd (run_cmd sys cmd (after_sleep I w))) of
           (Next s', w'') \<Rightarrow> for_in (Suspended (cmd_frame sys cmd R I st (c + 1))) body s' w''
         | (Break s', w'') \<Rightarrow> (Broke s', w'')
         | (Return s', w'') \<Rightarrow> (Returned s', w'')
         | (Throw e s', w'') \<Rightarrow> (Threw e s', w''))
      else (Exhausted s, after_sleep I w))"
  by (subst for_in_iter_cmd[OF gen_next_Suspended_cmd[OF assms, of sys cmd R st c w]])
     (simp add: after_sleep_def)


lemma fails_next_Suc:
  "fails_next sys cmd fails D h (Suc n) \<Longrightarrow>
     fails (answer sys h cmd) \<and> duration sys h cmd \<le> D
     \<and> fails_next sys cmd fails D (h @ [cmd]) n"
proof -
  assume a: "fails_next sys cmd fails D h (Suc n)"
  have "fails (answer sys (h @ replicate 0 cmd) cmd) \<and> duration sys (h @ replicate 0 cmd) cmd \<le> D"
    using a unfolding fails_next_def by blast
  moreover have "fails_next sys cmd fails D (h @ [cmd]) n"
    unfolding fails_next_def
  proof (intro allI impI)
    fix k assume "k < n"
    then have "Suc k < Suc n" by simp
    with a have "fails (answer sys (h @ replicate (Suc k) cmd) cmd)
             \<and> duration sys (h @ replicate (Suc k) cmd) cmd \<le> D"
      unfolding fails_next_def by blast
    then show "fails (answer sys ((h @ [cmd]) @ replicate k cmd) cmd)
             \<and> duration sys ((h @ [cmd]) @ replicate k cmd) cmd \<le> D"
      by simp
  qed
  ultimately show ?thesis by simp
qed

lemma after_sleep_fields:
  "issued (after_sleep I w) = issued w" "now (after_sleep I w) = now w + I"
  "DISCOVERED_TARGETS (after_sleep I w) = DISCOVERED_TARGETS w"
  "ISCSI_LOGGEDIN_TARGETS (after_sleep I w) = ISCSI_LOGGEDIN_TARGETS w"
  by (simp_all add: after_sleep_def)

lemma body_eqI:
  "fst b = x \<Longrightarrow> b = (x, snd b)"
  by (cases b) simp

lemma for_in_Suspended_Next:
  assumes "0 \<le> I" "c + 1 < R" "now w + I - st < 1000000"
    and "body (Some (fst (run_cmd sys cmd (after_sleep I w)))) s
              (snd (run_cmd sys cmd (after_sleep I w))) = (Next s', w')"
  shows "for_in (Suspended (cmd_frame sys cmd R I st c)) body s w
           = for_in (Suspended (cmd_frame sys cmd R I st (c + 1))) body s' w'"
  by (subst for_in_Suspended_cmd[OF assms(1)]) (simp add: assms)

lemma for_in_Created_Next:
  assumes "0 < R"
    and "body (Some (fst (run_cmd sys cmd w))) s (snd (run_cmd sys cmd w)) = (Next s', w')"
  shows "for_in (poll (polled_run_cmd sys) (ArgsList [cmd]) None (Some R) (Some I)
                 None None None) body s w
           = for_in (Suspended (cmd_frame sys cmd R I (now w) 0)) body s' w'"
  by (subst for_in_Created_cmd) (simp add: assms)

lemma for_in_Suspended_Exhausted:
  assumes "0 \<le> I" "\<not> (c + 1 < R \<and> now w + I - st < 1000000)"
  shows "for_in (Suspended (cmd_frame sys cmd R I st c)) body s w = (Exhausted s, after_sleep I w)"
  by (subst for_in_Suspended_cmd[OF assms(1)]) (simp only: assms(2) if_False)

lemma fail_prefix_Suspended:
  assumes I: "0 \<le> I"
    and body: "quiet_on fails B body"
  shows "fails_next sys cmd fails D (issued w) n \<Longrightarrow> c + int n < R \<Longrightarrow>
     now w - st + int n * (I + int D) < 1000000 + int D \<Longrightarrow>
     now w + int n * (I + int D) \<le> B \<Longrightarrow>
     \<exists>s' w'. for_in (Suspended (cmd_frame sys cmd R I st c)) body s w
                = for_in (Suspended (cmd_frame sys cmd R I st (c + int n))) body s' w'
            \<and> ran sys cmd n I D w s w' s'"
proof (induction n arbitrary: c s w)
  case 0
  show ?case
    by (intro exI[of _ s] exI[of _ w]) (simp add: ran_def fail_locals_def)
next
  case (Suc n)
  define r where "r = fst (run_cmd sys cmd (after_sleep I w))"
  define w2 where "w2 = snd (run_cmd sys cmd (after_sleep I w))"
  define b where "b = body (Some r) s w2"
  have nn: "0 \<le> int n * (I + int D)" using I by simp
  have test: "c + 1 < R" "now w + I - st < 1000000"
    using Suc.prems nn by (simp_all add: algebra_simps)
  have r: "r = answer sys (issued w) cmd"
    by (simp add: r_def run_cmd_fields after_sleep_fields)
  have w2: "issued w2 = issued w @ [cmd]"
    "now w2 = now w + I + int (duration sys (issued w) cmd)"
    "DISCOVERED_TARGETS w2 = DISCOVERED_TARGETS w"
    "ISCSI_LOGGEDIN_TARGETS w2 = ISCSI_LOGGEDIN_TARGETS w"
    by (simp_all add: w2_def run_cmd_fields after_sleep_fields)
  note fn = fails_next_Suc[OF Suc.prems(1)]
  have f: "fails r" using fn r by simp
  have d: "int (duration sys (issued w) cmd) \<le> int D" using fn by simp
  have nB: "now w2 \<le> B"
    unfolding w2 using Suc.prems(4) d nn by (simp add: algebra_simps)
  from body f nB have b1: "fst b = Next (Some (fst r), Some (snd r))"
    and b2: "issued (snd b) = issued w2" and b3: "now (snd b) = now w2"
    and b4: "DISCOVERED_TARGETS (snd b) = DISCOVERED_TARGETS w2"
    and b5: "ISCSI_LOGGEDIN_TARGETS (snd b) = ISCSI_LOGGEDIN_TARGETS w2"
    unfolding quiet_on_def b_def by blast+
  have unf: "for_in (Suspended (cmd_frame sys cmd R I st c)) body s w
        = for_in (Suspended (cmd_frame sys cmd R I st (c + 1))) body
            (Some (fst r), Some (snd r)) (snd b)"
    by (rule for_in_Suspended_Next[OF I test]) (use body_eqI[OF b1] in \<open>simp add: b_def r_def w2_def\<close>)
  have fn': "fails_next sys cmd fails D (issued (snd b)) n"
    unfolding b2 w2 using fn by simp
  have c': "c + 1 + int n < R" using Suc.prems(2) by simp
  have tm: "now (snd b) - st + int n * (I + int D) < 1000000 + int D"
    unfolding b3 w2 using Suc.prems(3) d by (simp add: algebra_simps)
  have tB: "now (snd b) + int n * (I + int D) \<le> B"
    unfolding b3 w2 using Suc.prems(4) d by (simp add: algebra_simps)
  from Suc.IH[OF fn' c' tm tB, of "(Some (fst r), Some (snd r))"]
  obtain s' w' where
    run: "for_in (Suspended (cmd_frame sys cmd R I st (c + 1))) body
            (Some (fst r), Some (snd r)) (snd b)
          = for_in (Suspended (cmd_frame sys cmd R I st (c + 1 + int n))) body s' w'"
    and rn: "ran sys cmd n I D (snd b) (Some (fst r), Some (snd r)) w' s'"
    by blast
  have fl: "fail_locals sys cmd (issued w @ [cmd]) n (Some (fst r), Some (snd r))
            = fail_locals sys cmd (issued w) (Suc n) s"
    by (cases n) (simp_all add: fail_locals_def r replicate_app_Cons_same)
  have ix: "c + 1 + int n = c + int (Suc n)" by simp
  have rn': "ran sys cmd (Suc n) I D w s w' s'"
    using rn d I unfolding ran_def b2 b3 b4 b5 w2 fl
    by (simp add: replicate_app_Cons_same algebra_simps)
  show ?case
    unfolding unf run ix using rn' by blast
qed

lemma fail_prefix_Created:
  assumes I: "0 \<le> I"
    and body: "quiet_on fails B body"
    and fn: "fails_next sys cmd fails D (issued w) (Suc m)"
    and R: "int m < R"
    and tm: "int m * (I + int D) < 1000000"
    and tB: "now w + int D + int m * (I + int D) \<le> B"
  shows "\<exists>s' w'. for_in (poll (polled_run_cmd sys) (ArgsList [cmd]) None (Some R) (Some I)
                      None None None) body s w
                = for_in (Suspended (cmd_frame sys cmd R I (now w) (int m))) body s' w'
            \<and> issued w' = issued w @ replicate (Suc m) cmd
            \<and> now w \<le> now w' \<and> now w' \<le> now w + int D + int m * (I + int D)
            \<and> DISCOVERED_TARGETS w' = DISCOVERED_TARGETS w
            \<and> ISCSI_LOGGEDIN_TARGETS w' = ISCSI_LOGGEDIN_TARGETS w
            \<and> s' = fail_locals sys cmd (issued w) (Suc m) s"
proof -
  define r where "r = fst (run_cmd sys cmd w)"
  define w2 where "w2 = snd (run_cmd sys cmd w)"
  define b where "b = body (Some r) s w2"
  have nn: "0 \<le> int m * (I + int D)" using I by simp
  have R0: "0 < R" using R by simp
  have r: "r = answer sys (issued w) cmd" by (simp add: r_def run_cmd_fields)
  have w2: "issued w2 = issued w @ [cmd]"
    "now w2 = now w + int (duration sys (issued w) cmd)"
    "DISCOVERED_TARGETS w2 = DISCOVERED_TARGETS w"
    "ISCSI_LOGGEDIN_TARGETS w2 = ISCSI_LOGGEDIN_TARGETS w"
    by (simp_all add: w2_def run_cmd_fields)
  note fn1 = fails_next_Suc[OF fn]
  have f: "fails r" using fn1 r by simp
  have d: "int (duration sys (issued w) cmd) \<le> int D" using fn1 by simp
  have nB: "now w2 \<le> B" unfolding w2 using tB d nn by simp
  from body f nB have b1: "fst b = Next (Some (fst r), Some (snd r))"
    and b2: "issued (snd b) = issued w2" and b3: "now (snd b) = now w2"
    and b4: "DISCOVERED_TARGETS (snd b) = DISCOVERED_TARGETS w2"
    and b5: "ISCSI_LOGGEDIN_TARGETS (snd b) = ISCSI_LOGGEDIN_TARGETS w2"
    unfolding quiet_on_def b_def by blast+
  have unf: "for_in (poll (polled_run_cmd sys) (ArgsList [cmd]) None (Some R) (Some I)
                 None None None) body s w
        = for_in (Suspended (cmd_frame sys cmd R I (now w) 0)) body
            (Some (fst r), Some (snd r)) (snd b)"
    by (rule for_in_Created_Next[OF R0]) (use body_eqI[OF b1] in \<open>simp add: b_def r_def w2_def\<close>)
  have fn': "fails_next sys cmd fails D (issued (snd b)) m"
    unfolding b2 w2 using fn1 by simp
  have c': "0 + int m < R" using R by simp
  have tm': "now (snd b) - now w + int m * (I + int D) < 1000000 + int D"
    unfolding b3 w2 using tm d by (simp add: algebra_simps)
  have tB': "now (snd b) + int m * (I + int D) \<le> B"
    unfolding b3 w2 using tB d by (simp add: algebra_simps)
  from fail_prefix_Suspended[OF I body fn' c' tm' tB', of "(Some (fst r), Some (snd r))"]
  obtain s' w' where
    run: "for_in (Suspended (cmd_frame sys cmd R I (now w) 0)) body
            (Some (fst r), Some (snd r)) (snd b)
          = for_in (Suspended (cmd_frame sys cmd R I (now w) (0 + int m))) body s' w'"
    and rn: "ran sys cmd m I D (snd b) (Some (fst r), Some (snd r)) w' s'"
    by blast
  have fl: "fail_locals sys cmd (issued w @ [cmd]) m (Some (fst r), Some (snd r))
            = fail_locals sys cmd (issued w) (Suc m) s"
    by (cases m) (simp_all add: fail_locals_def r replicate_app_Cons_same)
  have rn': "issued w' = issued w @ replicate (Suc m) cmd
            \<and> now w \<le> now w' \<and> now w' \<le> now w + int D + int m * (I + int D)
            \<and> DISCOVERED_TARGETS w' = DISCOVERED_TARGETS w
            \<and> ISCSI_LOGGEDIN_TARGETS w' = ISCSI_LOGGEDIN_TARGETS w
            \<and> s' = fail_locals sys cmd (issued w) (Suc m) s"
    using rn d I unfolding ran_def b2 b3 b4 b5 w2 fl
    by (simp add: replicate_app_Cons_same algebra_simps)
  show ?thesis
    unfolding unf run using rn' by (intro exI[of _ s'] exI[of _ w']) simp
qed

lemma logged_only_fields:
  "issued (log_msg lvl m w) = issued w" "now (log_msg lvl m w) = now w"
  "DISCOVERED_TARGETS (log_msg lvl m w) = DISCOVERED_TARGETS w"
  "ISCSI_LOGGEDIN_TARGETS (log_msg lvl m w) = ISCSI_LOGGEDIN_TARGETS w"
  by (simp_all add: log_msg_def)

lemma logout_body_quiet: "quiet_on logout_fails B (logout_body sys ip iqn)"
  unfolding quiet_on_def logout_fails_def logout_body_def
  by (auto simp: logged_only_fields split: prod.splits)


lemma all_fail_poll:
  assumes I: "0 \<le> I"
    and body: "quiet_on fails (now w + int (Suc m) * (I + int D)) body"
    and fn: "fails_next sys cmd fails D (issued w) (Suc m)"
    and R: "R = int (Suc m)"
    and tm: "int m * (I + int D) < 1000000"
  shows "fst (for_in (poll (polled_run_cmd sys) (ArgsList [cmd]) None (Some R) (Some I)
                      None None None) body s w)
           = Exhausted (fail_locals sys cmd (issued w) (Suc m) s)
       \<and> issued (snd (for_in (poll (polled_run_cmd sys) (ArgsList [cmd]) None (Some R) (Some I)
                      None None None) body s w))
           = issued w @ replicate (Suc m) cmd
       \<and> DISCOVERED_TARGETS (snd (for_in (poll (polled_run_cmd sys) (ArgsList [cmd]) None
                      (Some R) (Some I) None None None) body s w)) = DISCOVERED_TARGETS w
       \<and> ISCSI_LOGGEDIN_TARGETS (snd (for_in (poll (polled_run_cmd sys) (ArgsList [cmd]) None
                      (Some R) (Some I) None None None) body s w)) = ISCSI_LOGGEDIN_TARGETS w"
proof -
  have Rm: "int m < R" using R by simp
  have tB: "now w + int D + int m * (I + int D) \<le> now w + int (Suc m) * (I + int D)"
    using I by (simp add: algebra_simps)
  from fail_prefix_Created[OF I body fn Rm tm tB, of s]
  obtain s' w' where
    run: "for_in (poll (polled_run_cmd sys) (ArgsList [cmd]) None (Some R) (Some I)
                      None None None) body s w
                = for_in (Suspended (cmd_frame sys cmd R I (now w) (int m))) body s' w'"
    and p: "issued w' = issued w @ replicate (Suc m) cmd"
       "DISCOVERED_TARGETS w' = DISCOVERED_TARGETS w"
       "ISCSI_LOGGEDIN_TARGETS w' = ISCSI_LOGGEDIN_TARGETS w"
       "s' = fail_locals sys cmd (issued w) (Suc m) s"
    by blast
  have ne: "\<not> (int m + 1 < R \<and> now w' + I - now w < 1000000)" using R by simp
  show ?thesis
    unfolding run for_in_Suspended_Exhausted[OF I ne]
    by (simp add: p after_sleep_fields)
qed


lemma logout_all_fail:
  assumes fn: "fails_next sys (logout_cmd_str iqn ip port iface_name) logout_fails D (issued w) 12"
    and tm: "11 * (5 + int D) < 1000000"
  shows "fst (logout sys iqn ip port iface_name w)
           = Inl (Exn EnvironmentError
               [cmd_failed_msg sys (logout_cmd_str iqn ip port iface_name)
                  (Some (fst (answer sys (issued w @ replicate 11 (logout_cmd_str iqn ip port iface_name))
                                 (logout_cmd_str iqn ip port iface_name))))
                  (Some (snd (answer sys (issued w @ replicate 11 (logout_cmd_str iqn ip port iface_name))
                                 (logout_cmd_str iqn ip port iface_name))))])
       \<and> issued (snd (logout sys iqn ip port iface_name w))
           = issued w @ replicate 12 (logout_cmd_str iqn ip port iface_name)
       \<and> DISCOVERED_TARGETS (snd (logout sys iqn ip port iface_name w)) = DISCOVERED_TARGETS w
       \<and> ISCSI_LOGGEDIN_TARGETS (snd (logout sys iqn ip port iface_name w))
           = ISCSI_LOGGEDIN_TARGETS w"
proof -
  let ?cmd = "logout_cmd_str iqn ip port iface_name"
  let ?f = "for_in (poll (polled_run_cmd sys) (ArgsList [?cmd]) None (Some 12) (Some 5)
                      None None None) (logout_body sys ip iqn) (None, None) w"
  have fn': "fails_next sys ?cmd logout_fails D (issued w) (Suc 11)" using fn by simp
  have tm': "int 11 * (5 + int D) < 1000000" using tm by simp
  note A = all_fail_poll[where I = 5 and m = 11 and R = 12 and s = "(None, None)",
      OF _ logout_body_quiet fn' _ tm']
  have A1: "fst ?f = Exhausted (fail_locals sys ?cmd (issued w) (Suc 11) (None, None))"
    and A2: "issued (snd ?f) = issued w @ replicate (Suc 11) ?cmd"
    and A3: "DISCOVERED_TARGETS (snd ?f) = DISCOVERED_TARGETS w"
    and A4: "ISCSI_LOGGEDIN_TARGETS (snd ?f) = ISCSI_LOGGEDIN_TARGETS w"
    using A by simp_all
  have f: "?f = (Exhausted (fail_locals sys ?cmd (issued w) (Suc 11) (None, None)), snd ?f)"
    using A1 by (rule body_eqI)
  have lg: "logout sys iqn ip port iface_name w =
       (Inl (Exn EnvironmentError [cmd_failed_msg sys ?cmd
            (fst (fail_locals sys ?cmd (issued w) (Suc 11) (None, None)))
            (snd (fail_locals sys ?cmd (issued w) (Suc 11) (None, None)))]), snd ?f)"
    unfolding logout_def Let_def LOGOUT_RETRY_COUNT_def ISCSIADM_RETRY_INTERVAL_def
    by (subst f) (simp add: split_beta)
  have r12: "replicate (Suc 11) ?cmd = replicate 12 ?cmd" by simp
  show ?thesis
    unfolding lg using A2 A3 A4 unfolding r12
    by (simp add: fail_locals_def)
qed








section \<open>Properties of logout and delete\<close>


lemma for_in_Created_exit:
  assumes "0 < R"
  shows "body (Some (fst (run_cmd sys cmd w))) s (snd (run_cmd sys cmd w)) = (Break s', w') \<Longrightarrow>
           for_in (poll (polled_run_cmd sys) (ArgsList [cmd]) None (Some R) (Some I)
                 None None None) body s w = (Broke s', w')"
    and "body (Some (fst (run_cmd sys cmd w))) s (snd (run_cmd sys cmd w)) = (Return s', w') \<Longrightarrow>
           for_in (poll (polled_run_cmd sys) (ArgsList [cmd]) None (Some R) (Some I)
                 None None None) body s w = (Returned s', w')"
    and "body (Some (fst (run_cmd sys cmd w))) s (snd (run_cmd sys cmd w)) = (Throw e s', w') \<Longrightarrow>
           for_in (poll (polled_run_cmd sys) (ArgsList [cmd]) None (Some R) (Some I)
                 None None None) body s w = (Threw e s', w')"
  by (subst for_in_Created_cmd, simp add: assms)+

lemma for_in_Suspended_exit:
  assumes "0 \<le> I" "c + 1 < R" "now w + I - st < 1000000"
  shows "body (Some (fst (run_cmd sys cmd (after_sleep I w)))) s
              (snd (run_cmd sys cmd (after_sleep I w))) = (Break s', w') \<Longrightarrow>
           for_in (Suspended (cmd_frame sys cmd R I st c)) body s w = (Broke s', w')"
    and "body (Some (fst (run_cmd sys cmd (after_sleep I w)))) s
              (snd (run_cmd sys cmd (after_sleep I w))) = (Return s', w') \<Longrightarrow>
           for_in (Suspended (cmd_frame sys cmd R I st c)) body s w = (Returned s', w')"
    and "body (Some (fst (run_cmd sys cmd (after_sleep I w)))) s
              (snd (run_cmd sys cmd (after_sleep I w))) = (Throw e s', w') \<Longrightarrow>
           for_in (Suspended (cmd_frame sys cmd R I st c)) body s w = (Threw e s', w')"
  by (subst for_in_Suspended_cmd[OF assms(1)], simp add: assms)+

lemma logout_first_gone:
  assumes "fst (answer sys (issued w) (logout_cmd_str iqn ip port iface_name)) \<noteq> 0"
    and "fst (answer sys (issued w) (logout_cmd_str iqn ip port iface_name)) \<in> set logout_error_code
         \<or> snd (answer sys (issued w) (logout_cmd_str iqn ip port iface_name))
             \<in> set logout_error_response"
  shows "logout sys iqn ip port iface_name w
           = (Inr (), snd (run_cmd sys (logout_cmd_str iqn ip port iface_name) w))"
proof -
  let ?cmd = "logout_cmd_str iqn ip port iface_name"
  obtain ret out where a: "answer sys (issued w) ?cmd = (ret, out)" by (cases "answer sys (issued w) ?cmd")
  have b: "logout_body sys ip iqn (Some (fst (run_cmd sys ?cmd w))) (None, None)
             (snd (run_cmd sys ?cmd w)) = (Break (Some ret, Some out), snd (run_cmd sys ?cmd w))"
    using assms unfolding a run_cmd_fields(1) logout_body_def by simp
  show ?thesis
    unfolding logout_def Let_def LOGOUT_RETRY_COUNT_def ISCSIADM_RETRY_INTERVAL_def
    by (subst for_in_Created_exit(1)[where body = "logout_body sys ip iqn" and sys = sys
          and cmd = ?cmd and w = w and s = "(None, None)" and R = 12 and I = 5, OF _ b]) simp_all
qed

lemma logout_first_zero:
  assumes "fst (answer sys (issued w) (logout_cmd_str iqn ip port iface_name)) = 0"
  shows "logout sys iqn ip port iface_name w
           = (Inr (), remove_iscsi_loggedin_target_using_iqn sys ip iqn
                        (snd (run_cmd sys (logout_cmd_str iqn ip port iface_name) w)))"
proof -
  let ?cmd = "logout_cmd_str iqn ip port iface_name"
  obtain ret out where a: "answer sys (issued w) ?cmd = (ret, out)" by (cases "answer sys (issued w) ?cmd")
  have b: "logout_body sys ip iqn (Some (fst (run_cmd sys ?cmd w))) (None, None)
             (snd (run_cmd sys ?cmd w))
           = (Break (Some ret, Some out),
              remove_iscsi_loggedin_target_using_iqn sys ip iqn (snd (run_cmd sys ?cmd w)))"
    using assms unfolding a run_cmd_fields(1) logout_body_def by simp
  show ?thesis
    unfolding logout_def Let_def LOGOUT_RETRY_COUNT_def ISCSIADM_RETRY_INTERVAL_def
    by (subst for_in_Created_exit(1)[where body = "logout_body sys ip iqn" and sys = sys
          and cmd = ?cmd and w = w and s = "(None, None)" and R = 12 and I = 5, OF _ b]) simp_all
qed

lemma stub_sys_fields:
  "answer (stub_sys ret out d) h c = (ret, out)" "duration (stub_sys ret out d) h c = d"
  "name (stub_sys ret out d) = ''client1''"
  by (simp_all add: stub_sys_def answer_def duration_def)


lemma fails_next_all:
  "(\<And>h. fails (answer sys h cmd) \<and> duration sys h cmd \<le> D) \<Longrightarrow> fails_next sys cmd fails D h0 n"
  unfolding fails_next_def by blast






lemma remove_iscsi_loggedin_target_using_iqn_noop:
  "remove_iscsi_loggedin_target_using_iqn sys ip iqn w = w"
proof (cases "ISCSI_LOGGEDIN_TARGETS w (name sys)")
  case None
  then show ?thesis by (simp add: remove_iscsi_loggedin_target_using_iqn_def)
next
  case (Some targets)
  show ?thesis
  proof (cases "targets = []")
    case True
    have "(ISCSI_LOGGEDIN_TARGETS w)(name sys \<mapsto> []) = ISCSI_LOGGEDIN_TARGETS w"
      using Some True by (simp add: fun_upd_idem)
    then show ?thesis
      using Some True by (simp add: remove_iscsi_loggedin_target_using_iqn_def)
  next
    case False
    then show ?thesis
      using Some by (simp add: remove_iscsi_loggedin_target_using_iqn_def)
  qed
qed

lemma once_sys_fields:
  "answer once_sys [] c = (0, [])"
  "answer once_sys (x # h) c = (21, ''iscsiadm: No matching sessions found'')"
  "name once_sys = ''client1''"
  by (simp_all add: once_sys_def answer_def)

lemma logout_once_first:
  "logout once_sys ''iqn.a'' (Some ''10.0.0.1'') 3260 (Some ''default'') world_a
     = (Inr (), snd (run_cmd once_sys
                       (logout_cmd_str ''iqn.a'' (Some ''10.0.0.1'') 3260 (Some ''default''))
                       world_a))"
proof -
  have i: "issued world_a = []" by (simp add: world_a_def world0_def)
  show ?thesis
    by (subst logout_first_zero)
       (simp_all add: i once_sys_fields remove_iscsi_loggedin_target_using_iqn_noop)
qed

lemma logout_once_second:
  assumes "issued w = x # h"
  shows "logout once_sys ''iqn.a'' (Some ''10.0.0.1'') 3260 (Some ''default'') w
     = (Inr (), snd (run_cmd once_sys
                       (logout_cmd_str ''iqn.a'' (Some ''10.0.0.1'') 3260 (Some ''default'')) w))"
  by (rule logout_first_gone) (simp_all add: assms once_sys_fields logout_error_code_def)

text \<open>
  Claim C2, on the code. The system \<^verbatim>\<open>client1\<close> is logged in to a target; the first
  \<^verbatim>\<open>logout\<close> of it gets the exit code 0 and the second the exit code 21. Both calls
  return normally, and after each of them \<^verbatim>\<open>ISCSI_LOGGEDIN_TARGETS\<close> still holds the
  target: \<^verbatim>\<open>remove_iscsi_loggedin_target_using_iqn\<close> runs its loop only when the list
  is empty.
\<close>

theorem logout_twice_keeps_target:
  "fst (logout once_sys ''iqn.a'' (Some ''10.0.0.1'') 3260 (Some ''default'') world_a) = Inr ()
   \<and> ISCSI_LOGGEDIN_TARGETS
        (snd (logout once_sys ''iqn.a'' (Some ''10.0.0.1'') 3260 (Some ''default'') world_a))
        ''client1'' = Some [target_a]
   \<and> fst (logout once_sys ''iqn.a'' (Some ''10.0.0.1'') 3260 (Some ''default'')
            (snd (logout once_sys ''iqn.a'' (Some ''10.0.0.1'') 3260 (Some ''default'') world_a)))
       = Inr ()
   \<and> ISCSI_LOGGEDIN_TARGETS
        (snd (logout once_sys ''iqn.a'' (Some ''10.0.0.1'') 3260 (Some ''default'')
            (snd (logout once_sys ''iqn.a'' (Some ''10.0.0.1'') 3260 (Some ''default'') world_a))))
        ''client1'' = Some [target_a]
   \<and> t_iqn target_a = ''iqn.a'' \<and> t_ip target_a = Some ''10.0.0.1''"
proof -
  let ?cmd = "logout_cmd_str ''iqn.a'' (Some ''10.0.0.1'') 3260 (Some ''default'')"
  let ?w1 = "snd (run_cmd once_sys ?cmd world_a)"
  have i: "issued ?w1 = ?cmd # []"
    by (simp add: run_cmd_fields world_a_def world0_def)
  have r: "ISCSI_LOGGEDIN_TARGETS world_a ''client1'' = Some [target_a]"
    by (simp add: world_a_def)
  have w1: "snd (logout once_sys ''iqn.a'' (Some ''10.0.0.1'') 3260 (Some ''default'') world_a) = ?w1"
    and f1: "fst (logout once_sys ''iqn.a'' (Some ''10.0.0.1'') 3260 (Some ''default'') world_a) = Inr ()"
    by (simp_all add: logout_once_first)
  show ?thesis
    unfolding w1 f1 logout_once_second[OF i]
    by (simp add: run_cmd_fields r target_a_def)
qed

text \<open>
  Claim C3, on the code. A command that always ends with the exit code 1 and the output
  \<^verbatim>\<open>iscsiadm: No matching sessions found\<close>: the output contains the text
  \<^verbatim>\<open>logout\<close> looks for, yet \<^verbatim>\<open>logout\<close> runs the command 12 times and raises
  \<^verbatim>\<open>EnvironmentError\<close>, since \<^verbatim>\<open>output in error_response\<close> asks for the output to be
  one of the two texts.
\<close>

theorem logout_substring_output_raises:
  "is_substring ''No matching sessions found''
      (snd (answer (stub_sys 1 ''iscsiadm: No matching sessions found'' 0) []
              (logout_cmd_str ''iqn.a'' None 3260 (Some ''default''))))
   \<and> fst (logout (stub_sys 1 ''iscsiadm: No matching sessions found'' 0) ''iqn.a'' None 3260
            (Some ''default'') world0)
       = Inl (Exn EnvironmentError
           [cmd_failed_msg (stub_sys 1 ''iscsiadm: No matching sessions found'' 0)
              (logout_cmd_str ''iqn.a'' None 3260 (Some ''default'')) (Some 1)
              (Some ''iscsiadm: No matching sessions found'')])
   \<and> issued (snd (logout (stub_sys 1 ''iscsiadm: No matching sessions found'' 0) ''iqn.a'' None 3260
            (Some ''default'') world0))
       = replicate 12 (logout_cmd_str ''iqn.a'' None 3260 (Some ''default''))"
proof -
  let ?sys = "stub_sys 1 ''iscsiadm: No matching sessions found'' 0"
  have lf: "logout_fails (answer ?sys h c) \<and> duration ?sys h c \<le> 0" for h c
    unfolding stub_sys_fields logout_fails_def
    by (simp add: logout_error_code_def logout_error_response_def)
  have tm: "11 * (5 + int 0) < 1000000" by simp
  note L = logout_all_fail[OF fails_next_all[of logout_fails ?sys _ 0, OF lf] tm,
      of "''iqn.a''" None 3260 "Some ''default''" world0]
  have i0: "issued world0 = []" by (simp add: world0_def)
  have sub: "is_substring ''No matching sessions found'' ''iscsiadm: No matching sessions found''"
    by simp
  show ?thesis
    using L sub unfolding stub_sys_fields i0 by simp
qed


lemma delete_first_zero:
  assumes "fst (answer sys (issued w) (delete_cmd_str iqn ip)) = 0"
  shows "delete sys iqn ip w
           = (Inr (), remove_discovered sys (\<lambda>target. t_iqn target = iqn)
                        (snd (run_cmd sys (delete_cmd_str iqn ip) w)))"
proof -
  let ?cmd = "delete_cmd_str iqn ip"
  obtain ret out where a: "answer sys (issued w) ?cmd = (ret, out)" by (cases "answer sys (issued w) ?cmd")
  have b: "delete_body sys (Some (fst (run_cmd sys ?cmd w))) (None, None)
             (snd (run_cmd sys ?cmd w)) = (Break (Some ret, Some out), snd (run_cmd sys ?cmd w))"
    using assms unfolding a run_cmd_fields(1) delete_body_def by simp
  show ?thesis
    unfolding delete_def Let_def DELETE_RETRY_COUNT_def ISCSIADM_RETRY_INTERVAL_def
    by (subst for_in_Created_exit(1)[where body = "delete_body sys" and sys = sys
          and cmd = ?cmd and w = w and s = "(None, None)" and R = 12 and I = 5, OF _ b]) simp_all
qed

lemma delete_once_removes:
  "fst (delete once_sys ''iqn.a'' (Some ''10.0.0.1'') world_a) = Inr ()
   \<and> DISCOVERED_TARGETS (snd (delete once_sys ''iqn.a'' (Some ''10.0.0.1'') world_a)) ''client1''
       = Some []"
proof -
  have i: "issued world_a = []" by (simp add: world_a_def world0_def)
  have d: "DISCOVERED_TARGETS world_a ''client1'' = Some [target_a]" by (simp add: world_a_def)
  show ?thesis
    by (subst (1 2) delete_first_zero)
       (simp_all add: i d once_sys_fields remove_discovered_def run_cmd_fields target_a_def)
qed

lemma force_logout_all_no_EnvironmentError:
  "fst (force_logout_all sys iface_name w) = Inl e \<Longrightarrow> exn_cls e = KeyError"
  by (auto simp: force_logout_all_def Let_def remove_target_from_iscsi_loggedin_targets_def
           split: prod.splits if_splits option.splits)

lemma destroy_iface_loop_no_Threw:
  "fst (destroy_iface_loop sys cmd retries w) \<noteq> Threw e s"
proof (induction retries arbitrary: w)
  case 0
  then show ?case by simp
next
  case (Suc retries)
  obtain ret out w1 where r: "run_cmd sys cmd w = ((ret, out), w1)"
    by (cases "run_cmd sys cmd w") auto
  show ?case
    using Suc.IH by (simp add: r sleep_def)
qed

lemma destroy_iface_no_EnvironmentError:
  "fst (destroy_iface sys iface_name w) = Inl e \<Longrightarrow> exn_cls e = KeyError"
proof -
  assume a: "fst (destroy_iface sys iface_name w) = Inl e"
  obtain r w1 where f: "force_logout_all sys (Some iface_name) w = (r, w1)"
    by (cases "force_logout_all sys (Some iface_name) w")
  show ?thesis
  proof (cases r)
    case (Inl e0)
    with a f have "e0 = e" by (simp add: destroy_iface_def)
    with force_logout_all_no_EnvironmentError[of sys "Some iface_name" w e0] f Inl
    show ?thesis by simp
  next
    case (Inr u)
    obtain x w2 where l: "destroy_iface_loop sys (destroy_iface_cmd iface_name) 10 w1 = (x, w2)"
      by (cases "destroy_iface_loop sys (destroy_iface_cmd iface_name) 10 w1")
    have "x \<noteq> Threw e' s'" for e' s'
      using destroy_iface_loop_no_Threw[of sys "destroy_iface_cmd iface_name" 10 w1 e' s'] l
      by simp
    then show ?thesis
      using a f Inr l by (cases x) (auto simp: destroy_iface_def)
  qed
qed

lemma destroy_iface_loop_other_status:
  assumes "fst (answer sys (issued w) cmd) \<noteq> 0" "fst (answer sys (issued w) cmd) \<noteq> 6"
  shows "destroy_iface_loop sys cmd (Suc retries) w = (Returned (), snd (run_cmd sys cmd w))"
proof -
  obtain ret out where a: "answer sys (issued w) cmd = (ret, out)"
    by (cases "answer sys (issued w) cmd")
  have r: "run_cmd sys cmd w = ((ret, out), snd (run_cmd sys cmd w))"
    by (simp add: run_cmd_eq a)
  show ?thesis
    using assms unfolding a by (subst destroy_iface_loop.simps, subst r) simp
qed

lemma force_logout_all_nonzero:
  assumes "fst (answer sys (issued w) (force_logout_all_cmd_str iface_name)) \<noteq> 0"
  shows "force_logout_all sys iface_name w
           = (Inr (), snd (run_cmd sys (force_logout_all_cmd_str iface_name) w))"
proof -
  obtain ret out where a: "answer sys (issued w) (force_logout_all_cmd_str iface_name) = (ret, out)"
    by (cases "answer sys (issued w) (force_logout_all_cmd_str iface_name)")
  have r: "run_cmd sys (force_logout_all_cmd_str iface_name) w
             = ((ret, out), snd (run_cmd sys (force_logout_all_cmd_str iface_name) w))"
    by (simp add: run_cmd_eq a)
  show ?thesis
    using assms unfolding a force_logout_all_def Let_def by (subst r) simp
qed

text \<open>
  Claim C8, on the code. The interface-delete command ends with the exit code 1 and an
  output that mentions neither text of the test: \<^verbatim>\<open>destroy_iface\<close> returns normally
  after that one attempt and raises nothing.
\<close>

theorem destroy_iface_other_status_returns:
  "fst (answer (stub_sys 1 ''iscsiadm: unknown failure'' 0) [] (destroy_iface_cmd ''ifaceABCDE'')) = 1
   \<and> \<not> is_substring ''Could not delete iface'' ''iscsiadm: unknown failure''
   \<and> \<not> is_substring ''Could not read iface info'' ''iscsiadm: unknown failure''
   \<and> fst (destroy_iface (stub_sys 1 ''iscsiadm: unknown failure'' 0) ''ifaceABCDE'' world_a) = Inr ()
   \<and> issued (snd (destroy_iface (stub_sys 1 ''iscsiadm: unknown failure'' 0) ''ifaceABCDE'' world_a))
       = [force_logout_all_cmd_str (Some ''ifaceABCDE''), destroy_iface_cmd ''ifaceABCDE'']"
proof -
  let ?sys = "stub_sys 1 ''iscsiadm: unknown failure'' 0"
  let ?w1 = "snd (run_cmd ?sys (force_logout_all_cmd_str (Some ''ifaceABCDE'')) world_a)"
  have F: "force_logout_all ?sys (Some ''ifaceABCDE'') world_a = (Inr (), ?w1)"
    by (rule force_logout_all_nonzero) (simp add: stub_sys_fields)
  have ten: "(10::nat) = Suc 9" by simp
  have L: "destroy_iface_loop ?sys (destroy_iface_cmd ''ifaceABCDE'') 10 ?w1
             = (Returned (), snd (run_cmd ?sys (destroy_iface_cmd ''ifaceABCDE'') ?w1))"
    unfolding ten by (rule destroy_iface_loop_other_status) (simp_all add: stub_sys_fields)
  have D: "destroy_iface ?sys ''ifaceABCDE'' world_a
             = (Inr (), snd (run_cmd ?sys (destroy_iface_cmd ''ifaceABCDE'') ?w1))"
    by (simp only: destroy_iface_def F prod.case sum.case L for_exit.case)
  have i: "issued world_a = []" by (simp add: world_a_def world0_def)
  have n1: "\<not> is_substring ''Could not delete iface'' ''iscsiadm: unknown failure''" by simp
  have n2: "\<not> is_substring ''Could not read iface info'' ''iscsiadm: unknown failure''" by simp
  show ?thesis
    unfolding D using n1 n2 by (simp add: stub_sys_fields run_cmd_fields i)
qed

section \<open>Properties of \<^verbatim>\<open>discover\<close>\<close>

lemma str_int_3260: "str_int 3260 = ''3260''"
  by (simp add: str_int_def digit_char_def)

lemma out_nonempty: "out_a \<noteq> []" "out_ab \<noteq> []"
  by (simp_all add: out_a_def out_ab_def)

lemma parse_out_a:
  "parse_discovery_result out_a 3260 = [((''10.0.0.1'', ''iqn.a''), ''iqn.a'')]"
  by (simp add: parse_discovery_result_def out_a_def str_int_3260 search_ip_iqn_def is_digit_def
        occurs_at_def upt_rec setdefault_def)

lemma parse_out_ab:
  "parse_discovery_result out_ab 3260
     = [((''10.0.0.1'', ''iqn.a''), ''iqn.a''), ((''10.0.0.2'', ''iqn.b''), ''iqn.b'')]"
  by (simp add: parse_discovery_result_def out_ab_def str_int_3260 search_ip_iqn_def is_digit_def
        occurs_at_def upt_rec setdefault_def)

lemma quiet_on_mono: "quiet_on fails B body \<Longrightarrow> B' \<le> B \<Longrightarrow> quiet_on fails B' body"
  unfolding quiet_on_def by (meson order_trans)

lemma discover_body_quiet:
  "quiet_on (discover_fails iqns) (st + timeout) (discover_body sys iqns port iface_name st timeout)"
  unfolding quiet_on_def discover_fails_def discover_body_def
  by (auto simp: Let_def split: prod.splits)

lemma discover_all_fail:
  assumes fn: "fails_next sys (discover_cmd_str ip iqn port iface_name)
                 (discover_fails (iqns_of iqn)) D (issued w) 5"
    and iqn: "iqn_truthy iqn"
    and tm: "5 * (5 + int D) \<le> timeout" "timeout \<le> 1000000"
  shows "fst (discover sys ip iqn port iface_name timeout w)
           = Inl (Exn EnvironmentError
               [discover_failed_msg sys iqn
                  (snd (answer sys (issued w @ replicate 4 (discover_cmd_str ip iqn port iface_name))
                          (discover_cmd_str ip iqn port iface_name)))
                  (discover_cmd_str ip iqn port iface_name)])
       \<and> issued (snd (discover sys ip iqn port iface_name timeout w))
           = issued w @ replicate 5 (discover_cmd_str ip iqn port iface_name)
       \<and> DISCOVERED_TARGETS (snd (discover sys ip iqn port iface_name timeout w))
           = DISCOVERED_TARGETS w"
proof -
  let ?cmd = "discover_cmd_str ip iqn port iface_name"
  let ?body = "discover_body sys (iqns_of iqn) port iface_name (now w) timeout"
  let ?f = "for_in (poll (polled_run_cmd sys) (ArgsList [?cmd]) None (Some 5) (Some 5)
                      None None None) ?body (None, None) w"
  have fn': "fails_next sys ?cmd (discover_fails (iqns_of iqn)) D (issued w) (Suc 4)"
    using fn by simp
  have tm': "int 4 * (5 + int D) < 1000000" using tm by simp
  have q: "quiet_on (discover_fails (iqns_of iqn)) (now w + int (Suc 4) * (5 + int D)) ?body"
    by (rule quiet_on_mono[OF discover_body_quiet]) (use tm in simp)
  have i5: "(0::int) \<le> 5" by simp
  have R5: "(5::int) = int (Suc 4)" by simp
  note A = all_fail_poll[where I = 5 and m = 4 and R = 5 and s = "(None, None)"
      and body = ?body and fails = "discover_fails (iqns_of iqn)", OF i5 q fn' R5 tm']
  note A1 = A[THEN conjunct1]
  note A2 = A[THEN conjunct2, THEN conjunct1]
  note A3 = A[THEN conjunct2, THEN conjunct2, THEN conjunct1]
  have f: "?f = (Exhausted (fail_locals sys ?cmd (issued w) (Suc 4) (None, None)), snd ?f)"
    using A1 by (rule body_eqI)
  have lg: "discover sys ip iqn port iface_name timeout w =
       (Inl (Exn EnvironmentError [discover_failed_msg sys iqn
            (snd (answer sys (issued w @ replicate 4 ?cmd) ?cmd)) ?cmd]), snd ?f)"
    unfolding discover_def discover_loop_def DISCOVERY_RETRY_COUNT_def ISCSIADM_RETRY_INTERVAL_def
    by (subst f) (simp add: iqn fail_locals_def)
  have r5: "replicate (Suc 4) ?cmd = replicate 5 ?cmd" by simp
  show ?thesis
    unfolding lg using A2 A3 unfolding r5 by simp
qed

lemma discover_body_returns_iff:
  assumes "iqns \<noteq> []"
  shows "(\<exists>s' w'. discover_body sys iqns port iface_name st timeout (Some (status, result)) s w
                    = (Return s', w'))
         \<longleftrightarrow> status = 0 \<and> set iqns \<subseteq> snd ` set (parse_discovery_result result 3260)"
proof -
  have e: "parse_discovery_result [] 3260 = []" by (simp add: parse_discovery_result_def)
  show ?thesis
    using assms e
    by (cases "result = []")
       (auto simp: discover_body_def Let_def is_iqn_subset_of_discovered_iqns_def)
qed

lemma discover_body_Return:
  assumes "discover_body sys iqns port iface_name st timeout (Some (status, result)) s w
             = (Return s', w')"
  shows "w' = register_discovered sys iqns port iface_name (parse_discovery_result result 3260) w"
  using assms by (auto simp: discover_body_def Let_def split: if_splits)

lemma add_target_targets_of:
  "targets_of (add_target host t reg) h
     = (if h = host then insert t (targets_of reg host) else targets_of reg h)"
  by (auto simp: add_target_def targets_of_def split: option.splits)

lemma register_discovered_targets_of:
  "targets_of (DISCOVERED_TARGETS (register_discovered sys iqns port iface_name d w)) h
     = (if h = name sys
        then targets_of (DISCOVERED_TARGETS w) h
             \<union> (\<lambda>k. \<lparr>t_ip = Some (fst k), t_port = port, t_iqn = snd k, t_iface = iface_name\<rparr>)
                 ` {k. \<exists>v. (k, v) \<in> set d \<and> v \<in> set iqns}
        else targets_of (DISCOVERED_TARGETS w) h)"
proof (induction d arbitrary: w)
  case Nil
  then show ?case by simp
next
  case (Cons kv rest)
  obtain k v where kv: "kv = (k, v)" by (cases kv)
  define T where "T = (\<lambda>k :: string \<times> string.
     \<lparr>t_ip = Some (fst k), t_port = port, t_iqn = snd k, t_iface = iface_name\<rparr>)"
  have IH: "targets_of (DISCOVERED_TARGETS (register_discovered sys iqns port iface_name rest w0)) h
     = (if h = name sys
        then targets_of (DISCOVERED_TARGETS w0) h \<union> T ` {k. \<exists>v. (k, v) \<in> set rest \<and> v \<in> set iqns}
        else targets_of (DISCOVERED_TARGETS w0) h)" for w0
    unfolding T_def by (rule Cons.IH)
  show ?case
  proof (cases "v \<in> set iqns")
    case True
    have s: "{k'. \<exists>v'. (k', v') \<in> set (kv # rest) \<and> v' \<in> set iqns}
               = insert k {k. \<exists>v. (k, v) \<in> set rest \<and> v \<in> set iqns}"
      using True by (auto simp: kv)
    have r: "register_discovered sys iqns port iface_name (kv # rest) w
          = register_discovered sys iqns port iface_name rest
              (w\<lparr>DISCOVERED_TARGETS := add_target (name sys) (T k) (DISCOVERED_TARGETS w)\<rparr>)"
      using True by (simp add: kv T_def)
    show ?thesis
      unfolding r IH s T_def[symmetric]
      by (simp add: add_target_targets_of)
  next
    case False
    have s: "{k'. \<exists>v'. (k', v') \<in> set (kv # rest) \<and> v' \<in> set iqns}
               = {k. \<exists>v. (k, v) \<in> set rest \<and> v \<in> set iqns}"
      using False by (auto simp: kv)
    have r: "register_discovered sys iqns port iface_name (kv # rest) w
          = register_discovered sys iqns port iface_name rest w"
      using False by (simp add: kv)
    show ?thesis
      unfolding r IH s T_def[symmetric] by simp
  qed
qed

lemma register_discovered_issued:
  "issued (register_discovered sys iqns port iface_name d w) = issued w"
  by (induction d arbitrary: w) (auto split: prod.splits)

lemma register_discovered_now:
  "now (register_discovered sys iqns port iface_name d w) = now w"
  by (induction d arbitrary: w) (auto split: prod.splits)

lemma register_discovered_loggedin:
  "ISCSI_LOGGEDIN_TARGETS (register_discovered sys iqns port iface_name d w)
     = ISCSI_LOGGEDIN_TARGETS w"
  by (induction d arbitrary: w) (auto split: prod.splits)

lemma setdefault_values:
  "\<forall>(k, v) \<in> set d. v = snd k \<Longrightarrow> v0 = snd k0 \<Longrightarrow> \<forall>(k, v) \<in> set (setdefault k0 v0 d). v = snd k"
  by (auto simp: setdefault_def)

lemma parse_lines_values:
  "\<forall>(k, v) \<in> set d. v = snd k \<Longrightarrow> \<forall>(k, v) \<in> set (parse_lines p ls d). v = snd k"
proof (induction ls arbitrary: d)
  case Nil
  then show ?case by simp
next
  case (Cons line rest)
  show ?case
  proof (cases "search_ip_iqn p line")
    case None
    then show ?thesis using Cons by simp
  next
    case (Some m)
    obtain a b where m: "m = (a, b)" by (cases m)
    have "\<forall>(k, v) \<in> set (setdefault (a, b) b d). v = snd k"
      by (rule setdefault_values[OF Cons.prems]) simp
    from Cons.IH[OF this] show ?thesis by (simp add: Some m)
  qed
qed

lemma parse_values: "\<forall>(k, v) \<in> set (parse_discovery_result r port). v = snd k"
  unfolding parse_discovery_result_def by (rule parse_lines_values) simp

lemma register_parsed_targets_of:
  "targets_of (DISCOVERED_TARGETS
       (register_discovered sys iqns port iface_name (parse_discovery_result r 3260) w)) h
     = (if h = name sys
        then targets_of (DISCOVERED_TARGETS w) h
             \<union> matching_targets iqns port iface_name (parse_discovery_result r 3260)
        else targets_of (DISCOVERED_TARGETS w) h)"
proof -
  have "{k. \<exists>v. (k, v) \<in> set (parse_discovery_result r 3260) \<and> v \<in> set iqns}
          = {k \<in> fst ` set (parse_discovery_result r 3260). snd k \<in> set iqns}"
    using parse_values[of r 3260] by force
  then show ?thesis
    unfolding register_discovered_targets_of matching_targets_def by simp
qed

lemma discover_scenario:
  "discover scenario_sys ''10.0.0.1'' (IqnList [''iqn.a'', ''iqn.b'']) 3260 (Some ''default'')
       100 world0
     = (Inr (),
        world0\<lparr>now := 13,
          issued := replicate 3
            (discover_cmd_str ''10.0.0.1'' (IqnList [''iqn.a'', ''iqn.b'']) 3260 (Some ''default'')),
          slept := [5, 5],
          DISCOVERED_TARGETS := [''client1'' \<mapsto>
             [\<lparr>t_ip = Some ''10.0.0.1'', t_port = 3260, t_iqn = ''iqn.a'',
               t_iface = Some ''default''\<rparr>,
              \<lparr>t_ip = Some ''10.0.0.2'', t_port = 3260, t_iqn = ''iqn.b'',
               t_iface = Some ''default''\<rparr>]]\<rparr>)"
  unfolding discover_def discover_loop_def DISCOVERY_RETRY_COUNT_def ISCSIADM_RETRY_INTERVAL_def
  by (simp add: for_in_Created_cmd for_in_Suspended_cmd run_cmd_eq answer_def duration_def
        scenario_sys_def discover_body_def world0_def after_sleep_def Let_def parse_out_a
        parse_out_ab out_nonempty is_iqn_subset_of_discovered_iqns_def add_target_def
        numeral_3_eq_3)

text \<open>
  Claim C7. \<^verbatim>\<open>discover\<close> returns normally when its timeout elapses, with nothing
  discovered and nothing registered: on a system whose every command fails with exit
  status 1 and no output after 4 ticks, \<^verbatim>\<open>discover(ip, iqn, timeout=10)\<close> runs its
  command twice (the second attempt ends 13 ticks after the start), raises nothing, and
  leaves the system without an entry in \<^verbatim>\<open>DISCOVERED_TARGETS\<close>.
\<close>

theorem discover_timeout_returns_normally:
  "fst (discover (stub_sys 1 [] 4) ''10.0.0.1'' (IqnStr ''iqn.a'') 3260 (Some ''default'') 10
          world0)
     = Inr ()
   \<and> DISCOVERED_TARGETS
        (snd (discover (stub_sys 1 [] 4) ''10.0.0.1'' (IqnStr ''iqn.a'') 3260 (Some ''default'')
                10 world0)) (name (stub_sys 1 [] 4))
       = None
   \<and> issued (snd (discover (stub_sys 1 [] 4) ''10.0.0.1'' (IqnStr ''iqn.a'') 3260
                     (Some ''default'') 10 world0))
       = replicate 2 (discover_cmd_str ''10.0.0.1'' (IqnStr ''iqn.a'') 3260 (Some ''default''))
   \<and> now (snd (discover (stub_sys 1 [] 4) ''10.0.0.1'' (IqnStr ''iqn.a'') 3260
                  (Some ''default'') 10 world0))
       = 13"
proof -
  have run: "discover (stub_sys 1 [] 4) ''10.0.0.1'' (IqnStr ''iqn.a'') 3260 (Some ''default'') 10
               world0
     = (Inr (), world0\<lparr>now := 13,
          issued := [discover_cmd_str ''10.0.0.1'' (IqnStr ''iqn.a'') 3260 (Some ''default''),
                     discover_cmd_str ''10.0.0.1'' (IqnStr ''iqn.a'') 3260 (Some ''default'')],
          slept := [5]\<rparr>)"
    unfolding discover_def discover_loop_def DISCOVERY_RETRY_COUNT_def ISCSIADM_RETRY_INTERVAL_def
    by (simp add: for_in_Created_cmd for_in_Suspended_cmd run_cmd_eq answer_def duration_def
          stub_sys_def discover_body_def world0_def after_sleep_def Let_def)
  show ?thesis
    unfolding run by (simp add: world0_def stub_sys_def numeral_2_eq_2)
qed

text \<open>
  Claim C1. \<^verbatim>\<open>discover\<close> returns without raising on an attempt whose output does not
  hold every requested IQN: asked for \<^verbatim>\<open>iqn.a\<close> and \<^verbatim>\<open>iqn.b\<close> with the timeout
  10, on a system that answers every command after 4 ticks with exit status 0 and the one
  portal of \<^verbatim>\<open>iqn.a\<close>, the call returns at its second attempt, the IQNs parsed from the
  output being \<^verbatim>\<open>iqn.a\<close> alone, and registers no target, not even that of
  \<^verbatim>\<open>iqn.a\<close>.
\<close>

theorem discover_returns_without_requested_iqns:
  "fst (discover (stub_sys 0 out_a 4) ''10.0.0.1'' (IqnList [''iqn.a'', ''iqn.b'']) 3260
          (Some ''default'') 10 world0)
     = Inr ()
   \<and> map snd (parse_discovery_result out_a 3260) = [''iqn.a'']
   \<and> \<not> is_iqn_subset_of_discovered_iqns [''iqn.a'', ''iqn.b'']
         (map snd (parse_discovery_result out_a 3260))
   \<and> DISCOVERED_TARGETS
        (snd (discover (stub_sys 0 out_a 4) ''10.0.0.1'' (IqnList [''iqn.a'', ''iqn.b'']) 3260
                (Some ''default'') 10 world0)) (name (stub_sys 0 out_a 4))
       = None
   \<and> issued (snd (discover (stub_sys 0 out_a 4) ''10.0.0.1'' (IqnList [''iqn.a'', ''iqn.b''])
                     3260 (Some ''default'') 10 world0))
       = replicate 2
           (discover_cmd_str ''10.0.0.1'' (IqnList [''iqn.a'', ''iqn.b'']) 3260 (Some ''default''))"
proof -
  have run: "discover (stub_sys 0 out_a 4) ''10.0.0.1'' (IqnList [''iqn.a'', ''iqn.b'']) 3260
               (Some ''default'') 10 world0
     = (Inr (), world0\<lparr>now := 13,
          issued := [discover_cmd_str ''10.0.0.1'' (IqnList [''iqn.a'', ''iqn.b'']) 3260
                       (Some ''default''),
                     discover_cmd_str ''10.0.0.1'' (IqnList [''iqn.a'', ''iqn.b'']) 3260
                       (Some ''default'')],
          slept := [5]\<rparr>)"
    unfolding discover_def discover_loop_def DISCOVERY_RETRY_COUNT_def ISCSIADM_RETRY_INTERVAL_def
    by (simp add: for_in_Created_cmd for_in_Suspended_cmd run_cmd_eq answer_def duration_def
          stub_sys_def discover_body_def world0_def after_sleep_def Let_def parse_out_a
          is_iqn_subset_of_discovered_iqns_def)
  show ?thesis
    unfolding run
    by (simp add: world0_def stub_sys_def numeral_2_eq_2 parse_out_a
          is_iqn_subset_of_discovered_iqns_def)
qed

section \<open>Properties of \<^verbatim>\<open>login_all_targets\<close>\<close>

lemma for_in_issued_shape_Suspended:
  assumes I: "0 \<le> I"
    and pres: "\<And>v s w. issued (snd (body v s w)) = issued w"
  shows "nat (R - c - 1) \<le> n \<Longrightarrow>
     \<exists>k. issued (snd (for_in (Suspended (cmd_frame sys cmd R I st c)) body s w))
           = issued w @ replicate k cmd"
proof (induction n arbitrary: c s w)
  case 0
  then have ne: "\<not> (c + 1 < R \<and> now w + I - st < 1000000)" by simp
  show ?case unfolding for_in_Suspended_Exhausted[OF I ne]
    by (intro exI[of _ 0]) (simp add: after_sleep_fields)
next
  case (Suc n)
  define r where "r = fst (run_cmd sys cmd (after_sleep I w))"
  define w2 where "w2 = snd (run_cmd sys cmd (after_sleep I w))"
  define b where "b = body (Some r) s w2"
  have w2: "issued w2 = issued w @ [cmd]"
    by (simp add: w2_def run_cmd_fields after_sleep_fields)
  have bi: "issued (snd b) = issued w @ [cmd]" unfolding b_def pres w2 ..
  show ?case
  proof (cases "c + 1 < R \<and> now w + I - st < 1000000")
    case False
    show ?thesis unfolding for_in_Suspended_Exhausted[OF I False]
      by (intro exI[of _ 0]) (simp add: after_sleep_fields)
  next
    case True
    have unf: "for_in (Suspended (cmd_frame sys cmd R I st c)) body s w =
       (case b of
           (Next s', w'') \<Rightarrow> for_in (Suspended (cmd_frame sys cmd R I st (c + 1))) body s' w''
         | (Break s', w'') \<Rightarrow> (Broke s', w'')
         | (Return s', w'') \<Rightarrow> (Returned s', w'')
         | (Throw e s', w'') \<Rightarrow> (Threw e s', w''))"
      unfolding b_def r_def w2_def
      by (subst for_in_Suspended_cmd[OF I]) (simp only: True simp_thms if_True)
    have n': "nat (R - (c + 1) - 1) \<le> n" using Suc.prems by simp
    obtain fl w'' where b: "b = (fl, w'')" by (cases b)
    have wi: "issued w'' = issued w @ [cmd]" using bi b by simp
    show ?thesis
    proof (cases fl)
      case (Next s')
      from Suc.IH[OF n', of s' w''] obtain k where
        "issued (snd (for_in (Suspended (cmd_frame sys cmd R I st (c + 1))) body s' w''))
           = issued w'' @ replicate k cmd" by blast
      then show ?thesis
        unfolding unf b Next by (intro exI[of _ "Suc k"]) (simp add: wi)
    next
      case (Break s')
      show ?thesis unfolding unf b Break by (intro exI[of _ 1]) (simp add: wi)
    next
      case (Return s')
      show ?thesis unfolding unf b Return by (intro exI[of _ 1]) (simp add: wi)
    next
      case (Throw e s')
      show ?thesis unfolding unf b Throw by (intro exI[of _ 1]) (simp add: wi)
    qed
  qed
qed

lemma for_in_issued_shape_Created:
  assumes I: "0 \<le> I" and R: "0 < R"
    and pres: "\<And>v s w. issued (snd (body v s w)) = issued w"
  shows "\<exists>k. issued (snd (for_in (poll (polled_run_cmd sys) (ArgsList [cmd]) None (Some R)
                  (Some I) None None None) body s w))
              = issued w @ replicate (Suc k) cmd"
proof -
  define b where "b = body (Some (fst (run_cmd sys cmd w))) s (snd (run_cmd sys cmd w))"
  have bi: "issued (snd b) = issued w @ [cmd]" unfolding b_def pres by (simp add: run_cmd_fields)
  have unf: "for_in (poll (polled_run_cmd sys) (ArgsList [cmd]) None (Some R)
                  (Some I) None None None) body s w =
       (case b of
           (Next s', w'') \<Rightarrow> for_in (Suspended (cmd_frame sys cmd R I (now w) 0)) body s' w''
         | (Break s', w'') \<Rightarrow> (Broke s', w'')
         | (Return s', w'') \<Rightarrow> (Returned s', w'')
         | (Throw e s', w'') \<Rightarrow> (Threw e s', w''))"
    unfolding b_def by (subst for_in_Created_cmd) (simp only: R if_True)
  obtain fl w'' where b: "b = (fl, w'')" by (cases b)
  have wi: "issued w'' = issued w @ [cmd]" using bi b by simp
  show ?thesis
  proof (cases fl)
    case (Next s')
    have "\<exists>k. issued (snd (for_in (Suspended (cmd_frame sys cmd R I (now w) 0)) body s' w''))
            = issued w'' @ replicate k cmd"
      by (rule for_in_issued_shape_Suspended[OF I, where n = "nat (R - 0 - 1)"]) (rule pres, simp)
    then obtain k where
      "issued (snd (for_in (Suspended (cmd_frame sys cmd R I (now w) 0)) body s' w''))
            = issued w'' @ replicate k cmd" by blast
    then show ?thesis unfolding unf b Next
      by (intro exI[of _ k]) (simp add: wi)
  next
    case (Break s')
    show ?thesis unfolding unf b Break by (intro exI[of _ 0]) (simp add: wi)
  next
    case (Return s')
    show ?thesis unfolding unf b Return by (intro exI[of _ 0]) (simp add: wi)
  next
    case (Throw e s')
    show ?thesis unfolding unf b Throw by (intro exI[of _ 0]) (simp add: wi)
  qed
qed

lemma login_body_issued: "issued (snd (login_body sys iqn ip port iface_name v s w)) = issued w"
  by (auto simp: login_body_def split: option.splits prod.splits)

lemma login_snd:
  "snd (login sys iqn ip port iface_name timeout w)
     = snd (for_in (poll (polled_run_cmd sys) (ArgsList [login_cmd_str iqn ip port iface_name])
                      None (Some timeout) (Some 1) None None None)
                   (login_body sys iqn ip port iface_name) (None, None) w)"
proof -
  let ?f = "for_in (poll (polled_run_cmd sys) (ArgsList [login_cmd_str iqn ip port iface_name])
                      None (Some timeout) (Some 1) None None None)
                   (login_body sys iqn ip port iface_name) (None, None) w"
  obtain x w' where f: "?f = (x, w')" by (cases ?f)
  show ?thesis
    unfolding login_def Let_def f
    by (cases x) (auto split: option.splits prod.splits)
qed

lemma login_issued:
  assumes "0 < timeout"
  shows "\<exists>k. issued (snd (login sys iqn ip port iface_name timeout w))
           = issued w @ replicate (Suc k) (login_cmd_str iqn ip port iface_name)"
  unfolding login_snd
  by (rule for_in_issued_shape_Created[where I = 1]) (simp_all add: assms login_body_issued)

lemma run_cmd_logged:
  "run_cmd sys cmd (w\<lparr>logged := l\<rparr>)
     = (fst (run_cmd sys cmd w), (snd (run_cmd sys cmd w))\<lparr>logged := l\<rparr>)"
  by (simp add: run_cmd_def split: prod.splits)

lemma after_sleep_logged:
  "after_sleep I (w\<lparr>logged := l\<rparr>) = (after_sleep I w)\<lparr>logged := l\<rparr>"
  by (simp add: after_sleep_def)

lemma for_in_logged_Suspended:
  assumes I: "0 \<le> I"
    and body: "\<And>v s w l. body v s (w\<lparr>logged := l\<rparr>)
                 = (fst (body v s w), (snd (body v s w))\<lparr>logged := l\<rparr>)"
  shows "nat (R - c - 1) \<le> n \<Longrightarrow>
     for_in (Suspended (cmd_frame sys cmd R I st c)) body s (w\<lparr>logged := l\<rparr>)
       = (fst (for_in (Suspended (cmd_frame sys cmd R I st c)) body s w),
          (snd (for_in (Suspended (cmd_frame sys cmd R I st c)) body s w))\<lparr>logged := l\<rparr>)"
proof (induction n arbitrary: c s w)
  case 0
  then have ne: "\<not> (c + 1 < R \<and> now w + I - st < 1000000)" by simp
  then have ne': "\<not> (c + 1 < R \<and> now (w\<lparr>logged := l\<rparr>) + I - st < 1000000)" by simp
  show ?case
    unfolding for_in_Suspended_Exhausted[OF I ne] for_in_Suspended_Exhausted[OF I ne']
    by (simp add: after_sleep_logged)
next
  case (Suc n)
  define r where "r = fst (run_cmd sys cmd (after_sleep I w))"
  define w2 where "w2 = snd (run_cmd sys cmd (after_sleep I w))"
  define b where "b = body (Some r) s w2"
  have rl: "run_cmd sys cmd (after_sleep I (w\<lparr>logged := l\<rparr>)) = (r, w2\<lparr>logged := l\<rparr>)"
    unfolding after_sleep_logged run_cmd_logged r_def w2_def ..
  have bl: "body (Some r) s (w2\<lparr>logged := l\<rparr>) = (fst b, (snd b)\<lparr>logged := l\<rparr>)"
    unfolding b_def by (rule body)
  show ?case
  proof (cases "c + 1 < R \<and> now w + I - st < 1000000")
    case False
    then have ne': "\<not> (c + 1 < R \<and> now (w\<lparr>logged := l\<rparr>) + I - st < 1000000)" by simp
    show ?thesis
      unfolding for_in_Suspended_Exhausted[OF I False] for_in_Suspended_Exhausted[OF I ne']
      by (simp add: after_sleep_logged)
  next
    case True
    then have True': "c + 1 < R \<and> now (w\<lparr>logged := l\<rparr>) + I - st < 1000000" by simp
    have unf: "for_in (Suspended (cmd_frame sys cmd R I st c)) body s w =
       (case b of
           (Next s', w'') \<Rightarrow> for_in (Suspended (cmd_frame sys cmd R I st (c + 1))) body s' w''
         | (Break s', w'') \<Rightarrow> (Broke s', w'')
         | (Return s', w'') \<Rightarrow> (Returned s', w'')
         | (Throw e s', w'') \<Rightarrow> (Threw e s', w''))"
      unfolding b_def r_def w2_def
      by (subst for_in_Suspended_cmd[OF I]) (simp only: True simp_thms if_True)
    have unf': "for_in (Suspended (cmd_frame sys cmd R I st c)) body s (w\<lparr>logged := l\<rparr>) =
       (case (fst b, (snd b)\<lparr>logged := l\<rparr>) of
           (Next s', w'') \<Rightarrow> for_in (Suspended (cmd_frame sys cmd R I st (c + 1))) body s' w''
         | (Break s', w'') \<Rightarrow> (Broke s', w'')
         | (Return s', w'') \<Rightarrow> (Returned s', w'')
         | (Throw e s', w'') \<Rightarrow> (Threw e s', w''))"
      by (subst for_in_Suspended_cmd[OF I]) (simp only: True' simp_thms if_True rl fst_conv snd_conv bl)
    have n': "nat (R - (c + 1) - 1) \<le> n" using Suc.prems by simp
    obtain fl w'' where b: "b = (fl, w'')" by (cases b)
    show ?thesis
    proof (cases fl)
      case (Next s')
      show ?thesis unfolding unf unf' b Next using Suc.IH[OF n', of s' w''] by simp
    next
      case (Break s')
      show ?thesis unfolding unf unf' b Break by simp
    next
      case (Return s')
      show ?thesis unfolding unf unf' b Return by simp
    next
      case (Throw e s')
      show ?thesis unfolding unf unf' b Throw by simp
    qed
  qed
qed

lemma for_in_logged_Created:
  assumes I: "0 \<le> I"
    and body: "\<And>v s w l. body v s (w\<lparr>logged := l\<rparr>)
                 = (fst (body v s w), (snd (body v s w))\<lparr>logged := l\<rparr>)"
  shows "for_in (poll (polled_run_cmd sys) (ArgsList [cmd]) None (Some R) (Some I) None None None)
           body s (w\<lparr>logged := l\<rparr>)
       = (fst (for_in (poll (polled_run_cmd sys) (ArgsList [cmd]) None (Some R) (Some I)
                  None None None) body s w),
          (snd (for_in (poll (polled_run_cmd sys) (ArgsList [cmd]) None (Some R) (Some I)
                  None None None) body s w))\<lparr>logged := l\<rparr>)"
proof (cases "0 < R")
  case False
  then show ?thesis by (subst (1 2 3) for_in_Created_cmd) simp
next
  case True
  define r where "r = fst (run_cmd sys cmd w)"
  define w2 where "w2 = snd (run_cmd sys cmd w)"
  define b where "b = body (Some r) s w2"
  have rl: "run_cmd sys cmd (w\<lparr>logged := l\<rparr>) = (r, w2\<lparr>logged := l\<rparr>)"
    unfolding run_cmd_logged r_def w2_def ..
  have bl: "body (Some r) s (w2\<lparr>logged := l\<rparr>) = (fst b, (snd b)\<lparr>logged := l\<rparr>)"
    unfolding b_def by (rule body)
  have unf: "for_in (poll (polled_run_cmd sys) (ArgsList [cmd]) None (Some R)
                  (Some I) None None None) body s w =
       (case b of
           (Next s', w'') \<Rightarrow> for_in (Suspended (cmd_frame sys cmd R I (now w) 0)) body s' w''
         | (Break s', w'') \<Rightarrow> (Broke s', w'')
         | (Return s', w'') \<Rightarrow> (Returned s', w'')
         | (Throw e s', w'') \<Rightarrow> (Threw e s', w''))"
    unfolding b_def r_def w2_def by (subst for_in_Created_cmd) (simp only: True if_True)
  have unf': "for_in (poll (polled_run_cmd sys) (ArgsList [cmd]) None (Some R)
                  (Some I) None None None) body s (w\<lparr>logged := l\<rparr>) =
       (case (fst b, (snd b)\<lparr>logged := l\<rparr>) of
           (Next s', w'') \<Rightarrow> for_in (Suspended (cmd_frame sys cmd R I (now w) 0)) body s' w''
         | (Break s', w'') \<Rightarrow> (Broke s', w'')
         | (Return s', w'') \<Rightarrow> (Returned s', w'')
         | (Throw e s', w'') \<Rightarrow> (Threw e s', w''))"
    by (subst for_in_Created_cmd) (simp add: True rl bl split: flow.splits)
  obtain fl w'' where b: "b = (fl, w'')" by (cases b)
  show ?thesis
  proof (cases fl)
    case (Next s')
    have "for_in (Suspended (cmd_frame sys cmd R I (now w) 0)) body s' (w''\<lparr>logged := l\<rparr>)
       = (fst (for_in (Suspended (cmd_frame sys cmd R I (now w) 0)) body s' w''),
          (snd (for_in (Suspended (cmd_frame sys cmd R I (now w) 0)) body s' w''))\<lparr>logged := l\<rparr>)"
      by (rule for_in_logged_Suspended[OF I, where n = "nat (R - 0 - 1)"]) (rule body, simp)
    then show ?thesis unfolding unf unf' b Next by simp
  next
    case (Break s')
    show ?thesis unfolding unf unf' b Break by simp
  next
    case (Return s')
    show ?thesis unfolding unf unf' b Return by simp
  next
    case (Throw e s')
    show ?thesis unfolding unf unf' b Throw by simp
  qed
qed

lemma login_body_logged:
  "login_body sys iqn ip port iface_name v s (w\<lparr>logged := l\<rparr>)
     = (fst (login_body sys iqn ip port iface_name v s w),
        (snd (login_body sys iqn ip port iface_name v s w))\<lparr>logged := l\<rparr>)"
  by (auto simp: login_body_def split: option.splits prod.splits)

lemma login_logged:
  "login sys iqn ip port iface_name timeout (w\<lparr>logged := l\<rparr>)
     = (fst (login sys iqn ip port iface_name timeout w),
        (snd (login sys iqn ip port iface_name timeout w))\<lparr>logged := l\<rparr>)"
proof -
  let ?f = "for_in (poll (polled_run_cmd sys) (ArgsList [login_cmd_str iqn ip port iface_name])
                      None (Some timeout) (Some 1) None None None)
                   (login_body sys iqn ip port iface_name) (None, None)"
  have c: "?f (w\<lparr>logged := l\<rparr>) = (fst (?f w), (snd (?f w))\<lparr>logged := l\<rparr>)"
    by (rule for_in_logged_Created) (simp_all add: login_body_logged)
  obtain x w' where f: "?f w = (x, w')" by (cases "?f w")
  show ?thesis
    unfolding login_def Let_def c f
    by (cases x) (auto split: option.splits prod.splits)
qed

lemma run_tasks_logged:
  assumes "\<And>t w l. t \<in> set tasks \<Longrightarrow>
             t (w\<lparr>logged := l\<rparr>) = (fst (t w), (snd (t w))\<lparr>logged := l\<rparr>)"
  shows "run_tasks tasks fs (w\<lparr>logged := l\<rparr>)
           = (fst (run_tasks tasks fs w), (snd (run_tasks tasks fs w))\<lparr>logged := l\<rparr>)"
  using assms
proof (induction tasks arbitrary: fs w)
  case Nil
  then show ?case by simp
next
  case (Cons t tasks)
  have t: "t (w\<lparr>logged := l\<rparr>) = (fst (t w), (snd (t w))\<lparr>logged := l\<rparr>)"
    by (rule Cons.prems) simp
  have IH: "run_tasks tasks fs' (w'\<lparr>logged := l\<rparr>)
           = (fst (run_tasks tasks fs' w'), (snd (run_tasks tasks fs' w'))\<lparr>logged := l\<rparr>)" for fs' w'
    by (rule Cons.IH) (rule Cons.prems, simp)
  obtain x w' where tw: "t w = (x, w')" by (cases "t w")
  show ?case
    by (cases x) (simp_all add: t tw IH)
qed

lemma run_cmd_check_logged:
  "run_cmd_check sys cmd (w\<lparr>logged := l\<rparr>)
     = (fst (run_cmd_check sys cmd w), (snd (run_cmd_check sys cmd w))\<lparr>logged := l\<rparr>)"
  by (simp add: run_cmd_check_def run_cmd_logged split: prod.splits)

lemma run_tasks_issued:
  assumes "\<And>a w. a \<in> set args \<Longrightarrow>
             \<exists>k. issued (snd (task a w)) = issued w @ replicate (Suc k) (cmd a)"
  shows "\<exists>X. issued (snd (run_tasks (map task args) fs w)) = issued w @ X
             \<and> set X = cmd ` set args"
  using assms
proof (induction args arbitrary: fs w)
  case Nil
  then show ?case by simp
next
  case (Cons a args)
  obtain k where k: "issued (snd (task a w)) = issued w @ replicate (Suc k) (cmd a)"
    using Cons.prems[of a w] by auto
  have IH: "\<exists>X. issued (snd (run_tasks (map task args) fs' w')) = issued w' @ X
             \<and> set X = cmd ` set args" for fs' w'
    by (rule Cons.IH) (rule Cons.prems, simp)
  obtain x w' where tw: "task a w = (x, w')" by (cases "task a w")
  have w': "issued w' = issued w @ replicate (Suc k) (cmd a)" using k tw by simp
  obtain fs' where r: "run_tasks (map task (a # args)) fs w = run_tasks (map task args) fs' w'"
    by (cases x) (simp_all add: tw)
  from IH[of fs' w'] obtain X where
    X: "issued (snd (run_tasks (map task args) fs' w')) = issued w' @ X" "set X = cmd ` set args"
    by blast
  show ?case
    unfolding r
    by (intro exI[of _ "replicate (Suc k) (cmd a) @ X"]) (auto simp: X w')
qed

lemma schedule_args:
  assumes "is_schedule (length args) order"
  shows "map (\<lambda>i. map task args ! i) (filter (\<lambda>i. i < length (map task args)) order)
           = map task (map (\<lambda>i. args ! i) order)"
    and "set (map (\<lambda>i. args ! i) order) = set args"
proof -
  have lt: "\<And>i. i \<in> set order \<Longrightarrow> i < length args"
    using assms by (auto simp: is_schedule_def)
  then have f: "filter (\<lambda>i. i < length (map task args)) order = order"
    by (simp add: filter_id_conv)
  show "map (\<lambda>i. map task args ! i) (filter (\<lambda>i. i < length (map task args)) order)
           = map task (map (\<lambda>i. args ! i) order)"
    unfolding f using lt by simp
  have "(\<lambda>i. args ! i) ` {..<length args} = set args"
    by (auto simp: in_set_conv_nth)
  then show "set (map (\<lambda>i. args ! i) order) = set args"
    using assms by (simp add: is_schedule_def)
qed

lemma run_threads_issued:
  assumes t: "\<And>a w. a \<in> set args \<Longrightarrow>
             \<exists>k. issued (snd (task a w)) = issued w @ replicate (Suc k) (cmd a)"
    and s: "is_schedule (length args) order"
  shows "\<exists>X. issued (snd (run_threads (map task args) max_workers order w)) = issued w @ X
             \<and> set X = cmd ` set args"
proof -
  let ?r = "run_tasks (map task (map (\<lambda>i. args ! i) order)) [] w"
  have "\<exists>X. issued (snd ?r) = issued w @ X \<and> set X = cmd ` set (map (\<lambda>i. args ! i) order)"
    by (rule run_tasks_issued) (rule t, simp only: schedule_args(2)[OF s])
  then obtain X where X: "issued (snd ?r) = issued w @ X" "set X = cmd ` set args"
    unfolding schedule_args(2)[OF s] by blast
  obtain fs w' where r: "?r = (fs, w')" by (cases ?r)
  have "snd (run_threads (map task args) max_workers order w) = w'"
    unfolding run_threads_def schedule_args(1)[OF s] r by (cases fs) simp_all
  then show ?thesis using X r by auto
qed

lemma run_threads_logged:
  assumes "\<And>t w l. t \<in> set tasks \<Longrightarrow>
             t (w\<lparr>logged := l\<rparr>) = (fst (t w), (snd (t w))\<lparr>logged := l\<rparr>)"
  shows "run_threads tasks max_workers order (w\<lparr>logged := l\<rparr>)
           = (fst (run_threads tasks max_workers order w),
              (snd (run_threads tasks max_workers order w))\<lparr>logged := l\<rparr>)"
proof -
  let ?ts = "map (\<lambda>i. tasks ! i) (filter (\<lambda>i. i < length tasks) order)"
  have c: "run_tasks ?ts [] (w\<lparr>logged := l\<rparr>)
           = (fst (run_tasks ?ts [] w), (snd (run_tasks ?ts [] w))\<lparr>logged := l\<rparr>)"
    by (rule run_tasks_logged) (rule assms, auto)
  obtain fs w' where r: "run_tasks ?ts [] w = (fs, w')" by (cases "run_tasks ?ts [] w")
  show ?thesis
    unfolding run_threads_def c r by (cases fs) simp_all
qed

lemma run_cmd_check_issued:
  "issued (snd (run_cmd_check sys cmd w)) = issued w @ [cmd]"
  by (simp add: run_cmd_check_def run_cmd_eq split: prod.splits)

lemma login_args_commands:
  "(\<lambda>(iqn, ip, port, iface). login_cmd_str iqn ip port iface) ` set (login_args_list targets_all)
     = login_command ` set targets_all"
  by (simp add: login_args_list_def login_command_def image_image)

lemma login_all_targets_run:
  assumes reg: "DISCOVERED_TARGETS w (name sys) = Some targets_all"
    and sched: "is_schedule (length targets_all) order"
  shows "\<exists>r w' X.
           (\<forall>iface_name. login_all_targets sys udev_timeout iface_name order w
              = (r, w'\<lparr>logged := logged w @
                       (if \<forall>target \<in> set targets_all. t_iface target \<noteq> iface_name
                        then [(WARNING, ''Num of discovered targets with iface_name ''
                                          @ fmt_str_opt iface_name @ '' is 0'')]
                        else [])\<rparr>))
           \<and> issued w' = issued w @ X
           \<and> login_command ` set targets_all \<subseteq> set X
           \<and> set X \<subseteq> login_command ` set targets_all \<union> {udev_cmd udev_timeout}"
proof -
  define task where "task = (\<lambda>(iqn, ip, port, iface). login sys iqn ip port iface 20)"
  define cmd where "cmd = (\<lambda>(iqn, ip, port, iface). login_cmd_str iqn ip port iface)"
  define args where "args = login_args_list targets_all"
  define threads where "threads = run_threads (map task args) (max_iscsi_worker sys) order"
  define rest where "rest = (\<lambda>w1.
     case threads w1 of
       (Inl e, w2) \<Rightarrow> (Inl e, w2)
     | (Inr _, w2) \<Rightarrow>
         (case run_cmd_check sys (udev_cmd udev_timeout) w2 of
            (Inl e, w3) \<Rightarrow> (Inl e, w3)
          | (Inr _, w3) \<Rightarrow> (Inr (), w3)))"
  have task_logged: "t (w0\<lparr>logged := l\<rparr>) = (fst (t w0), (snd (t w0))\<lparr>logged := l\<rparr>)"
    if "t \<in> set (map task args)" for t w0 l
    using that by (auto simp: task_def login_logged)
  have threads_logged: "threads (w0\<lparr>logged := l\<rparr>)
      = (fst (threads w0), (snd (threads w0))\<lparr>logged := l\<rparr>)" for w0 l
    unfolding threads_def by (rule run_threads_logged) (rule task_logged)
  have rest_logged: "rest (w0\<lparr>logged := l\<rparr>) = (fst (rest w0), (snd (rest w0))\<lparr>logged := l\<rparr>)"
    for w0 l
  proof -
    obtain x w2 where t: "threads w0 = (x, w2)" by (cases "threads w0")
    obtain y w3 where c: "run_cmd_check sys (udev_cmd udev_timeout) w2 = (y, w3)"
      by (cases "run_cmd_check sys (udev_cmd udev_timeout) w2")
    show ?thesis
      unfolding rest_def threads_logged t
      by (cases x; cases y) (simp_all add: run_cmd_check_logged c)
  qed
  have unf: "login_all_targets sys udev_timeout iface_name order w
      = rest (w\<lparr>logged := logged w @
               (if \<forall>target \<in> set targets_all. t_iface target \<noteq> iface_name
                then [(WARNING, ''Num of discovered targets with iface_name ''
                                  @ fmt_str_opt iface_name @ '' is 0'')]
                else [])\<rparr>)" for iface_name
  proof -
    have e: "(filter (\<lambda>target. t_iface target = iface_name) targets_all = [])
               = (\<forall>target \<in> set targets_all. t_iface target \<noteq> iface_name)"
      by (simp add: filter_empty_conv)
    show ?thesis
      unfolding login_all_targets_def reg rest_def threads_def task_def args_def
      by (simp add: Let_def log_msg_def e)
  qed
  have task_issued: "\<exists>k. issued (snd (task a w0)) = issued w0 @ replicate (Suc k) (cmd a)"
    for a w0
  proof -
    obtain iqn ip port iface where a: "a = (iqn, ip, port, iface)" by (cases a)
    show ?thesis
      unfolding a task_def cmd_def using login_issued[of 20 sys iqn ip port iface w0] by simp
  qed
  have "\<exists>X. issued (snd (threads w)) = issued w @ X \<and> set X = cmd ` set args"
    unfolding threads_def by (rule run_threads_issued) (rule task_issued, simp add: args_def login_args_list_def sched)
  then obtain X1 where X1: "issued (snd (threads w)) = issued w @ X1"
    "set X1 = login_command ` set targets_all"
    unfolding cmd_def args_def login_args_commands by blast
  have rest_issued: "\<exists>X. issued (snd (rest w)) = issued w @ X
      \<and> login_command ` set targets_all \<subseteq> set X
      \<and> set X \<subseteq> login_command ` set targets_all \<union> {udev_cmd udev_timeout}"
  proof -
    obtain x w2 where t: "threads w = (x, w2)" by (cases "threads w")
    obtain y w3 where c: "run_cmd_check sys (udev_cmd udev_timeout) w2 = (y, w3)"
      by (cases "run_cmd_check sys (udev_cmd udev_timeout) w2")
    have w2: "issued w2 = issued w @ X1" using X1(1) t by simp
    have w3: "issued w3 = issued w @ X1 @ [udev_cmd udev_timeout]"
      using run_cmd_check_issued[of sys "udev_cmd udev_timeout" w2] c w2 by simp
    show ?thesis
    proof (cases x)
      case (Inl e)
      have "snd (rest w) = w2" by (simp add: rest_def t Inl)
      then show ?thesis using w2 X1(2) by (intro exI[of _ X1]) auto
    next
      case (Inr u)
      have "snd (rest w) = w3" by (cases y) (simp_all add: rest_def t Inr c)
      then show ?thesis using w3 X1(2)
        by (intro exI[of _ "X1 @ [udev_cmd udev_timeout]"]) auto
    qed
  qed
  then obtain X where X: "issued (snd (rest w)) = issued w @ X"
      "login_command ` set targets_all \<subseteq> set X"
      "set X \<subseteq> login_command ` set targets_all \<union> {udev_cmd udev_timeout}"
    by blast
  show ?thesis
    by (intro exI[of _ "fst (rest w)"] exI[of _ "snd (rest w)"] exI[of _ X] conjI allI)
       (simp_all only: unf rest_logged X)
qed

text \<open>
  Claim C10. For a system with an entry in \<^verbatim>\<open>DISCOVERED_TARGETS\<close>, in whatever order
  the runner takes up the logins: \<^verbatim>\<open>login_all_targets\<close> has the login command of
  every target of the entry run, whatever the interface of the target and whatever
  \<^verbatim>\<open>iface_name\<close> is; it has no other command run but the \<^verbatim>\<open>udevadm\<close> one at its
  end; it logs the warning exactly when no target of the entry has the interface
  \<^verbatim>\<open>iface_name\<close>, and logs nothing else; and with another \<^verbatim>\<open>iface_name\<close> it ends
  the same way and leaves the same state but for that log.
\<close>

theorem login_all_targets_every_discovered_target:
  assumes "DISCOVERED_TARGETS w (name sys) = Some targets_all"
    and "is_schedule (length targets_all) order"
  shows "(\<forall>target \<in> set targets_all.
            login_command target
              \<in> set (drop (length (issued w))
                        (issued (snd (login_all_targets sys udev_timeout iface_name order w)))))
       \<and> set (drop (length (issued w))
                 (issued (snd (login_all_targets sys udev_timeout iface_name order w))))
           \<subseteq> login_command ` set targets_all \<union> {udev_cmd udev_timeout}
       \<and> logged (snd (login_all_targets sys udev_timeout iface_name order w))
           = logged w @
               (if \<forall>target \<in> set targets_all. t_iface target \<noteq> iface_name
                then [(WARNING, ''Num of discovered targets with iface_name ''
                                  @ fmt_str_opt iface_name @ '' is 0'')]
                else [])
       \<and> fst (login_all_targets sys udev_timeout iface_name order w)
           = fst (login_all_targets sys udev_timeout iface_name' order w)
       \<and> (snd (login_all_targets sys udev_timeout iface_name order w))\<lparr>logged := []\<rparr>
           = (snd (login_all_targets sys udev_timeout iface_name' order w))\<lparr>logged := []\<rparr>"
proof -
  from login_all_targets_run[OF assms, of udev_timeout]
  obtain r w' X where
    run: "\<And>iface_name. login_all_targets sys udev_timeout iface_name order w
              = (r, w'\<lparr>logged := logged w @
                       (if \<forall>target \<in> set targets_all. t_iface target \<noteq> iface_name
                        then [(WARNING, ''Num of discovered targets with iface_name ''
                                          @ fmt_str_opt iface_name @ '' is 0'')]
                        else [])\<rparr>)"
    and X: "issued w' = issued w @ X" "login_command ` set targets_all \<subseteq> set X"
       "set X \<subseteq> login_command ` set targets_all \<union> {udev_cmd udev_timeout}"
    by blast
  have d: "drop (length (issued w))
             (issued (snd (login_all_targets sys udev_timeout iface_name order w))) = X"
    unfolding run by (simp add: X(1))
  show ?thesis
    unfolding d using X(2) X(3) unfolding run by auto
qed

lemma world_ab_registry:
  "DISCOVERED_TARGETS world_ab (name (stub_sys 0 [] 0)) = Some [target_a, target_b]"
  by (simp add: world_ab_def world0_def stub_sys_def)

lemma schedule_1_0: "is_schedule (length [target_a, target_b]) [1, 0]"
  by (auto simp: is_schedule_def)

lemma target_ifaces:
  "t_iface target_a = Some ''default''" "t_iface target_b = Some ''iser0''"
  by (simp_all add: target_a_def target_b_def)

theorem login_all_targets_every_discovered_target_witness:
  "login_command target_b
     \<in> set (drop (length (issued world_ab))
               (issued (snd (login_all_targets (stub_sys 0 [] 0) 960 (Some ''default'') [1, 0]
                               world_ab))))
   \<and> logged (snd (login_all_targets (stub_sys 0 [] 0) 960 (Some ''default'') [1, 0] world_ab))
       = []
   \<and> logged (snd (login_all_targets (stub_sys 0 [] 0) 960 (Some ''iser1'') [1, 0] world_ab))
       = [(WARNING, ''Num of discovered targets with iface_name iser1 is 0'')]
   \<and> fst (login_all_targets (stub_sys 0 [] 0) 960 (Some ''default'') [1, 0] world_ab)
       = fst (login_all_targets (stub_sys 0 [] 0) 960 (Some ''iser1'') [1, 0] world_ab)"
proof (intro conjI)
  note T = login_all_targets_every_discovered_target[OF world_ab_registry schedule_1_0,
      where udev_timeout = 960]
  have b: "target_b \<in> set [target_a, target_b]" by simp
  show "login_command target_b
     \<in> set (drop (length (issued world_ab))
               (issued (snd (login_all_targets (stub_sys 0 [] 0) 960 (Some ''default'') [1, 0]
                               world_ab))))"
    by (rule T[THEN conjunct1, THEN bspec, OF b])
  have l: "logged world_ab = []" by (simp add: world_ab_def world0_def)
  show "logged (snd (login_all_targets (stub_sys 0 [] 0) 960 (Some ''default'') [1, 0] world_ab))
       = []"
    using T[where iface_name = "Some ''default''", THEN conjunct2, THEN conjunct2, THEN conjunct1]
    by (simp add: l target_ifaces)
  show "logged (snd (login_all_targets (stub_sys 0 [] 0) 960 (Some ''iser1'') [1, 0] world_ab))
       = [(WARNING, ''Num of discovered targets with iface_name iser1 is 0'')]"
    using T[where iface_name = "Some ''iser1''", THEN conjunct2, THEN conjunct2, THEN conjunct1]
    by (simp add: l target_ifaces)
  show "fst (login_all_targets (stub_sys 0 [] 0) 960 (Some ''default'') [1, 0] world_ab)
       = fst (login_all_targets (stub_sys 0 [] 0) 960 (Some ''iser1'') [1, 0] world_ab)"
    by (rule T[THEN conjunct2, THEN conjunct2, THEN conjunct2, THEN conjunct1])
qed

text \<open>
  The run on that state, with every command succeeding at once: the login of the target
  on \<^verbatim>\<open>iser0\<close> first, then that of the target on \<^verbatim>\<open>default\<close>, then the
  \<^verbatim>\<open>udevadm\<close> command; both targets end up in \<^verbatim>\<open>ISCSI_LOGGEDIN_TARGETS\<close>.
\<close>

lemma login_all_targets_world_ab:
  "login_all_targets (stub_sys 0 [] 0) 960 (Some ''default'') [1, 0] world_ab
     = (Inr (),
        world_ab\<lparr>issued := [login_command target_b, login_command target_a, udev_cmd 960],
                 ISCSI_LOGGEDIN_TARGETS := [''client1'' \<mapsto> [target_b, target_a]]\<rparr>)"
  unfolding login_all_targets_def run_threads_def login_def
  by (simp add: world_ab_def world0_def stub_sys_def login_args_list_def Let_def
        for_in_Created_cmd login_body_def run_cmd_eq answer_def duration_def
        run_cmd_check_def run_cmd_def add_target_def login_command_def target_a_def target_b_def
        max_iscsi_worker_def)

end
